theory Spec2Isabelle
  imports
    Main
    "HOL-Library.Char_ord"
    "HOL-Library.List_Lexorder"
    "HOL-Library.Multiset"
begin

section \<open>The commit graph\<close>

text \<open>
  The program keeps its history in a property graph (Neo4j) and talks to it in Cypher.
  A node carries one of four labels; a \<open>Commit\<close> has an \<open>id\<close> and, when it was made by
  \<open>create_commit\<close> or \<open>merge_commit\<close>, a \<open>message\<close> and a \<open>timestamp\<close> (the bare
  \<open>MERGE (c:Commit {id: ...})\<close> of \<open>create_branch\<close> sets the id alone). Strings are byte
  strings: a Python \<open>str\<close> stands for its UTF-8 encoding, whose byte order is the order
  of the code points.

  Nodes live in a table indexed by their internal id; a deleted node leaves an empty
  slot, so ids are never reused. Relationships form a list in creation order: parallel
  relationships are distinct entries, as in the store.
\<close>

datatype node =
    Commit string "string option" "string option"
  | User string
  | Branch string
  | HEAD string

datatype rel = PARENT | MADE_BY | BASE | POINTS_TO

type_synonym edge = "nat \<times> rel \<times> nat"

record graph =
  nodes :: "node option list"
  edges :: "edge list"

definition node_at :: "graph \<Rightarrow> nat \<Rightarrow> node option" where
  "node_at g n = (if n < length (nodes g) then nodes g ! n else None)"

fun commit_id_of :: "node \<Rightarrow> string option" where
  "commit_id_of (Commit i m t) = Some i"
| "commit_id_of (User u) = None"
| "commit_id_of (Branch b) = None"
| "commit_id_of (HEAD b) = None"

definition is_commit :: "string \<Rightarrow> node \<Rightarrow> bool" where
  "is_commit i v = (commit_id_of v = Some i)"

text \<open>\<open>MATCH (x:Label {props})\<close>: the ids of the live nodes that satisfy \<open>P\<close>, in id order.\<close>

fun find_from :: "nat \<Rightarrow> (node \<Rightarrow> bool) \<Rightarrow> node option list \<Rightarrow> nat list" where
  "find_from i P [] = []"
| "find_from i P (x # xs) =
     (case x of None \<Rightarrow> [] | Some v \<Rightarrow> if P v then [i] else []) @ find_from (i + 1) P xs"

definition match_nodes :: "graph \<Rightarrow> (node \<Rightarrow> bool) \<Rightarrow> nat list" where
  "match_nodes g P = find_from 0 P (nodes g)"

definition create_node :: "node \<Rightarrow> graph \<Rightarrow> graph" where
  "create_node v g = g\<lparr>nodes := nodes g @ [Some v]\<rparr>"

text \<open>
  \<open>MERGE (x:Label {props})\<close>: every node that matches, or else one new node. The pair is
  the rows bound to \<open>x\<close> and the graph after the clause.
\<close>

definition merge_node :: "node \<Rightarrow> graph \<Rightarrow> nat list \<times> graph" where
  "merge_node v g =
     (case match_nodes g (\<lambda>w. w = v) of
        [] \<Rightarrow> ([length (nodes g)], create_node v g)
      | n # ns \<Rightarrow> (n # ns, g))"

text \<open>
  \<open>MERGE (c:Commit {id: $commit_id})\<close> matches a commit by its id whatever its other
  properties, and creates a commit that has the id alone.
\<close>

definition merge_commit_by_id :: "string \<Rightarrow> graph \<Rightarrow> nat list \<times> graph" where
  "merge_commit_by_id i g =
     (case match_nodes g (is_commit i) of
        [] \<Rightarrow> ([length (nodes g)], create_node (Commit i None None) g)
      | n # ns \<Rightarrow> (n # ns, g))"

definition create_edges :: "edge list \<Rightarrow> graph \<Rightarrow> graph" where
  "create_edges es g = g\<lparr>edges := edges g @ es\<rparr>"

text \<open>
  The rows of
  \<^verbatim>\<open>MATCH (n:HEAD {branch: $b})-[:POINTS_TO]->(c:Commit) RETURN c.id\<close>,
  one for each such relationship, and \<open>result.single()\<close>: no record gives \<open>None\<close>, and
  of several the driver returns the first (with a warning).
\<close>

definition head_rows :: "graph \<Rightarrow> string \<Rightarrow> string list" where
  "head_rows g b =
     List.map_filter
       (\<lambda>(h, r, c).
          if r = POINTS_TO \<and> node_at g h = Some (HEAD b)
          then Option.bind (node_at g c) commit_id_of else None)
       (edges g)"

definition single :: "'a list \<Rightarrow> 'a option" where
  "single rows = (case rows of [] \<Rightarrow> None | x # xs \<Rightarrow> Some x)"

definition head_commit :: "graph \<Rightarrow> string \<Rightarrow> string option" where
  "head_commit g b = single (head_rows g b)"

text \<open>\<open>branch_exists\<close>: \<^verbatim>\<open>MATCH (b:Branch {name: $branch_name}) RETURN b\<close> has a record.\<close>

definition branch_exists :: "graph \<Rightarrow> string \<Rightarrow> bool" where
  "branch_exists g b = (match_nodes g (\<lambda>v. v = Branch b) \<noteq> [])"

text \<open>
  \<open>update_head\<close>:
  \<^verbatim>\<open>MATCH (h:HEAD {branch: $branch_name})-[r:POINTS_TO]->() DELETE r
  WITH h MATCH (c:Commit {id: $commit_id}) CREATE (h)-[:POINTS_TO]->(c)\<close>
  There is one row for each relationship matched; each is deleted, and each row is then
  joined with every commit of the given id.
\<close>

definition is_head_edge :: "graph \<Rightarrow> string \<Rightarrow> edge \<Rightarrow> bool" where
  "is_head_edge g b e = (fst (snd e) = POINTS_TO \<and> node_at g (fst e) = Some (HEAD b))"

definition update_head :: "string \<Rightarrow> string \<Rightarrow> graph \<Rightarrow> graph" where
  "update_head b i g =
     (let hs = map fst (filter (is_head_edge g b) (edges g));
          cs = match_nodes g (is_commit i)
      in g\<lparr>edges := filter (\<lambda>e. \<not> is_head_edge g b e) (edges g)
                      @ concat (map (\<lambda>h. map (\<lambda>c. (h, POINTS_TO, c)) cs) hs)\<rparr>)"

text \<open>
  \<open>create_branch\<close>, its two statements:
  \<^verbatim>\<open>CREATE (b:Branch {name: $branch_name}) MERGE (c:Commit {id: $commit_id})
  CREATE (b)-[:BASE]->(c)\<close> and
  \<^verbatim>\<open>MERGE (h:HEAD {branch: $branch_name}) MERGE (c:Commit {id: $commit_id})
  CREATE (h)-[:POINTS_TO]->(c)\<close>
\<close>

definition create_branch :: "string \<Rightarrow> string \<Rightarrow> graph \<Rightarrow> graph" where
  "create_branch b i g =
     (let nb = length (nodes g);
          g1 = create_node (Branch b) g;
          (cs, g2) = merge_commit_by_id i g1;
          g3 = create_edges (map (\<lambda>c. (nb, BASE, c)) cs) g2;
          (hs, g4) = merge_node (HEAD b) g3;
          (cs', g5) = merge_commit_by_id i g4
      in create_edges (concat (map (\<lambda>h. map (\<lambda>c. (h, POINTS_TO, c)) cs') hs)) g5)"

text \<open>
  \<open>terminate_branch\<close>: reports \<open>False\<close> when no Branch node has the name; otherwise
  \<^verbatim>\<open>MATCH (b:Branch {name: $branch_name}) MATCH (h:HEAD {branch: $branch_name})
  DETACH DELETE b, h\<close>
  deletes the nodes of every row together with their relationships (no row, and nothing
  is deleted, when the branch has no HEAD node) and reports \<open>True\<close>.
\<close>

fun delete_nodes :: "nat list \<Rightarrow> node option list \<Rightarrow> node option list" where
  "delete_nodes [] ns = ns"
| "delete_nodes (d # ds) ns = delete_nodes ds (ns[d := None])"

definition detach_delete :: "nat list \<Rightarrow> graph \<Rightarrow> graph" where
  "detach_delete ds g =
     g\<lparr>nodes := delete_nodes ds (nodes g),
       edges := filter (\<lambda>e. fst e \<notin> set ds \<and> snd (snd e) \<notin> set ds) (edges g)\<rparr>"

definition terminate_branch :: "string \<Rightarrow> graph \<Rightarrow> bool \<times> graph" where
  "terminate_branch b g =
     (let bs = match_nodes g (\<lambda>v. v = Branch b);
          hs = match_nodes g (\<lambda>v. v = HEAD b)
      in if bs = [] then (False, g)
         else if hs = [] then (True, g)
         else (True, detach_delete (bs @ hs) g))"


section \<open>The blob store and the working directory\<close>

text \<open>
  The bucket maps object keys to bodies and a working directory maps relative paths to
  file contents; both are association lists with one entry for each key. The object
  store, its client and the file system are taken to be there and to answer every call.
\<close>

type_synonym store = "(string \<times> string) list"

fun store_put :: "string \<Rightarrow> 'v \<Rightarrow> (string \<times> 'v) list \<Rightarrow> (string \<times> 'v) list" where
  "store_put k v [] = [(k, v)]"
| "store_put k v (kv # kvs) = (if fst kv = k then (k, v) # kvs else kv # store_put k v kvs)"

definition startswith :: "string \<Rightarrow> string \<Rightarrow> bool" where
  "startswith s p = (take (length p) s = p)"

definition endswith_slash :: "string \<Rightarrow> bool" where
  "endswith_slash s = (s \<noteq> [] \<and> last s = CHR ''/'')"

text \<open>\<open>os.path.join(base_prefix, rel_path).replace("\\", "/")\<close>, with the POSIX \<open>join\<close>.\<close>

definition path_join :: "string \<Rightarrow> string \<Rightarrow> string" where
  "path_join a b =
     (if startswith b ''/'' then b
      else if a = [] \<or> endswith_slash a then a @ b
      else a @ ''/'' @ b)"

definition object_key :: "string \<Rightarrow> string \<Rightarrow> string" where
  "object_key base_prefix rel_path =
     map (\<lambda>c. if c = CHR 0x5C then CHR ''/'' else c) (path_join base_prefix rel_path)"

text \<open>\<open>s3_store\<close>: \<open>files\<close> is a dict, walked in insertion order; a later upload to the
  same key replaces the earlier one.\<close>

definition s3_store :: "store \<Rightarrow> (string \<times> string) list \<Rightarrow> string \<Rightarrow> store" where
  "s3_store bucket files base_prefix =
     fold (\<lambda>(rel_path, file_content). store_put (object_key base_prefix rel_path) file_content)
       files bucket"

text \<open>
  Listing by prefix returns the keys in ascending byte order. One call of
  \<open>list_objects_v2\<close> returns at most 1000 of them, and \<open>fetch_version_hash\<close> makes one
  call; the paginator of \<open>revert_to_commit\<close> returns them all.
\<close>

definition paginate :: "store \<Rightarrow> string \<Rightarrow> store" where
  "paginate bucket prefix = sort_key fst (filter (\<lambda>kv. startswith (fst kv) prefix) bucket)"

definition list_objects_v2 :: "store \<Rightarrow> string \<Rightarrow> store" where
  "list_objects_v2 bucket prefix = take 1000 (paginate bucket prefix)"

text \<open>
  \<open>revert_to_commit\<close>: every entry of the directory whose name does not start with a dot
  is removed (an entry is the first component of a path), then every object under
  \<open>commit_id/\<close> that is not a folder key is downloaded to its relative path. The local
  path is the relative path itself: the keys are the ones \<open>s3_store\<close> wrote from the
  paths of \<open>read_directory\<close>, which \<open>os.path.normpath\<close> leaves as they are.
\<close>

definition top_item :: "string \<Rightarrow> string" where
  "top_item p = takeWhile (\<lambda>c. c \<noteq> CHR ''/'') p"

definition revert_to_commit :: "store \<Rightarrow> string \<Rightarrow> store \<Rightarrow> store" where
  "revert_to_commit bucket commit_id cwd =
     (let commit_prefix = commit_id @ ''/'';
          kept = filter (\<lambda>f. startswith (top_item (fst f)) ''.'') cwd
      in fold (\<lambda>obj. store_put (drop (length commit_prefix) (fst obj)) (snd obj))
           (filter (\<lambda>obj. \<not> endswith_slash (fst obj)) (paginate bucket commit_prefix))
           kept)"

section \<open>Fingerprints\<close>

text \<open>
  \<open>hashlib.sha1(...).hexdigest()\<close> is a library function; it is the parameter \<open>sha1\<close> of
  everything below, so each theorem holds of every digest function.
\<close>

fun crlf_to_lf :: "string \<Rightarrow> string" where
  "crlf_to_lf [] = []"
| "crlf_to_lf [c] = [c]"
| "crlf_to_lf (c # d # cs) =
     (if c = CHR 0x0D \<and> d = CHR 0x0A then CHR 0x0A # crlf_to_lf cs
      else c # crlf_to_lf (d # cs))"

text \<open>\<open>str(n)\<close> of a natural number: its decimal digits.\<close>

fun str_nat :: "nat \<Rightarrow> string" where
  "str_nat n =
     (if n < 10 then [''0123456789'' ! n]
      else str_nat (n div 10) @ [''0123456789'' ! (n mod 10)])"

declare str_nat.simps [simp del]

definition git_blob :: "string \<Rightarrow> string" where
  "git_blob content = ''blob '' @ str_nat (length content) @ [CHR 0x00] @ content"

definition file_sha1 :: "(string \<Rightarrow> string) \<Rightarrow> string \<Rightarrow> string" where
  "file_sha1 sha1 body = sha1 (git_blob (crlf_to_lf body))"

definition listing_key :: "string \<Rightarrow> string \<Rightarrow> string" where
  "listing_key prefix key = (if endswith_slash key then [] else drop (length prefix) key)"

definition file_hashes :: "(string \<Rightarrow> string) \<Rightarrow> string \<Rightarrow> store \<Rightarrow> (string \<times> string) list" where
  "file_hashes sha1 prefix contents =
     map (\<lambda>obj. (drop (length prefix) (fst obj), file_sha1 sha1 (snd obj)))
       (filter (\<lambda>obj. \<not> endswith_slash (fst obj))
          (sort_key (\<lambda>obj. listing_key prefix (fst obj)) contents))"

definition directory_sha1 :: "(string \<Rightarrow> string) \<Rightarrow> (string \<times> string) list \<Rightarrow> string" where
  "directory_sha1 sha1 fhs =
     sha1 (concat (map (\<lambda>ph. fst ph @ '':'' @ snd ph) (sort_key fst fhs)))"

definition fetch_version_hash ::
  "(string \<Rightarrow> string) \<Rightarrow> store \<Rightarrow> string \<Rightarrow> string \<times> (string \<times> string) list" where
  "fetch_version_hash sha1 bucket commit_id =
     (let prefix = commit_id @ ''/'';
          fhs = file_hashes sha1 prefix (list_objects_v2 bucket prefix)
      in (directory_sha1 sha1 fhs, fhs))"


text \<open>
  The snapshot that a listing shows: the relative path and the body of every object
  that is not a folder key.
\<close>

definition snapshot_entries :: "string \<Rightarrow> store \<Rightarrow> (string \<times> string) list" where
  "snapshot_entries prefix contents =
     map (\<lambda>obj. (drop (length prefix) (fst obj), snd obj))
       (filter (\<lambda>obj. \<not> endswith_slash (fst obj)) contents)"

section \<open>The program state and its operations\<close>

text \<open>
  \<open>config_file\<close> is \<open>commit_config.json\<close>: \<open>None\<close> when the file does not exist, else its
  \<open>latest_commit_id\<close> (\<open>read_latest_commit\<close> and \<open>write_latest_commit\<close>).
  \<open>current_branch\<close> is the attribute of that name, which lives as long as the process.
  \<open>cwd\<close> is the directory given to \<open>merge_branches\<close> and \<open>revert_to_commit\<close>. The clock
  reading \<open>datetime.now().isoformat()\<close> is the argument \<open>timestamp\<close> of the operations that
  take one.
\<close>

record state =
  db :: graph
  config_file :: "string option"
  current_branch :: string
  bucket :: store
  cwd :: store

text \<open>
  What the source raises: \<open>ValueError\<close> for a branch without a head and for conflicting
  versions, a plain \<open>Exception\<close> when there is no common ancestor, and in \<open>merge_commit\<close>
  \<open>TypeError\<close> on \<open>None[:-1]\<close>, \<open>IndexError\<close> on \<open>""[-1]\<close> and the \<open>ValueError\<close> of \<open>int\<close>.
\<close>

datatype error =
    No_HEAD_found string
  | No_common_ancestor
  | Conflicting_versions
  | TypeError
  | IndexError
  | Invalid_literal_for_int string

datatype notice = Switched_to string | Does_not_exist string

text \<open>\<open>switch_branch\<close>; the value returned is the line it prints.\<close>

definition switch_branch :: "string \<Rightarrow> state \<Rightarrow> notice \<times> state" where
  "switch_branch branch_name st =
     (case head_commit (db st) branch_name of
        Some current_commit_id \<Rightarrow>
          (Switched_to branch_name,
           st\<lparr>current_branch := branch_name, config_file := Some current_commit_id\<rparr>)
      | None \<Rightarrow> (Does_not_exist branch_name, st))"

definition create_branch_from_commit :: "string \<Rightarrow> string \<Rightarrow> state \<Rightarrow> notice \<times> state" where
  "create_branch_from_commit branch_name commit_id st =
     switch_branch branch_name (st\<lparr>db := create_branch branch_name commit_id (db st)\<rparr>)"

text \<open>
  \<open>create_commit\<close>. The parent is the local pointer on \<open>master\<close> and the branch's head
  otherwise; \<open>if parent_commit_id\<close> is false of \<open>None\<close> and of the empty string. The
  statements are
  \<^verbatim>\<open>CREATE (c:Commit {...}) MERGE (u:User {id: $user_id}) CREATE (c)-[:MADE_BY]->(u)\<close> and
  \<^verbatim>\<open>MATCH (child:Commit {id: $commit_id}), (parent:Commit {id: $parent_commit_id})
  CREATE (child)-[:PARENT]->(parent)\<close>
\<close>

definition link_parent :: "string \<Rightarrow> string option \<Rightarrow> graph \<Rightarrow> graph" where
  "link_parent commit_id parent_commit_id g =
     (case parent_commit_id of
        None \<Rightarrow> g
      | Some p \<Rightarrow>
          if p = [] then g
          else create_edges
                 (concat (map (\<lambda>child. map (\<lambda>parent. (child, PARENT, parent))
                                          (match_nodes g (is_commit p)))
                              (match_nodes g (is_commit commit_id))))
                 g)"

definition create_commit ::
  "string \<Rightarrow> string \<Rightarrow> string \<Rightarrow> (string \<times> string) list \<Rightarrow> string \<Rightarrow> string \<Rightarrow> state \<Rightarrow> state" where
  "create_commit commit_id message user_id files timestamp commit_branch st =
     (let parent_commit_id =
            (if commit_branch = ''master'' then config_file st
             else head_commit (db st) commit_branch);
          c = length (nodes (db st));
          g1 = create_node (Commit commit_id (Some message) (Some timestamp)) (db st);
          (us, g2) = merge_node (User user_id) g1;
          g3 = create_edges (map (\<lambda>u. (c, MADE_BY, u)) us) g2;
          g4 = link_parent commit_id parent_commit_id g3
      in st\<lparr>db := update_head commit_branch commit_id g4,
             config_file := Some commit_id,
             bucket := s3_store (bucket st) files commit_id\<rparr>)"

text \<open>
  \<open>merge_commit\<close>. The new id is \<open>last_commit_id[:-1] + str(int(last_commit_id[-1]) + 1)\<close>.
  The last character is read as the last byte, and of the bytes \<open>int\<close> accepts the ten
  ASCII digits; an id whose last character is not ASCII is one the source reads as a
  whole code point, and is not modelled. The statement is
  \<^verbatim>\<open>MERGE (c:Commit {id: $merge_commit_id, message: $message, timestamp: $timestamp})
  WITH c MATCH (a:Commit {id: $source_id}), (b:Commit {id: $target_id}), (u:User {id: $user_id})
  CREATE (c)-[:PARENT]->(a), (c)-[:PARENT]->(b) CREATE (c)-[:MADE_BY]->(u)\<close>
\<close>

definition int_of_digit :: "char \<Rightarrow> nat option" where
  "int_of_digit c =
     map_of [(CHR ''0'', 0), (CHR ''1'', 1), (CHR ''2'', 2), (CHR ''3'', 3), (CHR ''4'', 4),
             (CHR ''5'', 5), (CHR ''6'', 6), (CHR ''7'', 7), (CHR ''8'', 8), (CHR ''9'', 9)] c"

definition merge_rows :: "nat list \<Rightarrow> nat list \<Rightarrow> nat list \<Rightarrow> nat list \<Rightarrow> edge list" where
  "merge_rows cs as bs us =
     concat (map (\<lambda>c. concat (map (\<lambda>a. concat (map (\<lambda>b. concat (map (\<lambda>u.
       [(c, PARENT, a), (c, PARENT, b), (c, MADE_BY, u)]) us)) bs)) as)) cs)"

definition merge_commit ::
  "string \<Rightarrow> string \<Rightarrow> string \<Rightarrow> string \<Rightarrow> string \<Rightarrow> state \<Rightarrow> (error + string) \<times> state" where
  "merge_commit commit1 commit2 user_id message timestamp st =
     (case config_file st of
        None \<Rightarrow> (Inl TypeError, st)
      | Some last_commit_id \<Rightarrow>
          if last_commit_id = [] then (Inl IndexError, st)
          else
            (case int_of_digit (last last_commit_id) of
               None \<Rightarrow> (Inl (Invalid_literal_for_int [last last_commit_id]), st)
             | Some number \<Rightarrow>
                 (let merge_commit_id = butlast last_commit_id @ str_nat (number + 1);
                      (cs, g1) = merge_node
                                   (Commit merge_commit_id (Some message) (Some timestamp)) (db st);
                      g2 = create_edges
                             (merge_rows cs
                                (match_nodes g1 (is_commit commit1))
                                (match_nodes g1 (is_commit commit2))
                                (match_nodes g1 (\<lambda>v. v = User user_id)))
                             g1
                  in (Inr merge_commit_id,
                      st\<lparr>db := g2, config_file := Some merge_commit_id\<rparr>))))"


section \<open>Ancestors and the merge\<close>

text \<open>
  The rows of
  \<^verbatim>\<open>MATCH path = (n:Commit)-[:PARENT*]->(a:Commit) WHERE n.id = $id
  RETURN a.id AS id, length(path) AS distance\<close>
  There is one row for each path of one or more \<open>PARENT\<close> relationships that uses no
  relationship twice and ends in a commit. Cypher does not fix the order of the rows;
  here a path is followed to its end before the next relationship of a node is tried,
  and the relationships of a node are tried in the order of the list. \<open>walk\<close> keeps the
  relationships still unused, split where the scan of them stands.
\<close>

function walk :: "edge list \<Rightarrow> edge list \<Rightarrow> nat \<Rightarrow> nat \<Rightarrow> (nat \<times> nat) list" where
  "walk seen [] n d = []"
| "walk seen (e # rest) n d =
     (if fst e = n \<and> fst (snd e) = PARENT
      then (snd (snd e), d + 1) # walk [] (rev seen @ rest) (snd (snd e)) (d + 1)
      else [])
     @ walk (e # seen) rest n d"
  by pat_completeness auto
termination
  by (relation "measures [\<lambda>(seen, rest, n, d). length seen + length rest,
                          \<lambda>(seen, rest, n, d). length rest]") auto

definition ancestor_rows :: "graph \<Rightarrow> string \<Rightarrow> (string \<times> nat) list" where
  "ancestor_rows g i =
     List.map_filter
       (\<lambda>(a, distance). map_option (\<lambda>a_id. (a_id, distance)) (Option.bind (node_at g a) commit_id_of))
       (concat (map (\<lambda>n. walk [] (edges g) n 0) (match_nodes g (is_commit i))))"

text \<open>
  The loop \<open>for record in result: ancestors[record['id']] = record['distance']\<close> on an
  empty dict: a later row of an id replaces the distance of an earlier one.
\<close>

definition ancestors_for :: "graph \<Rightarrow> string \<Rightarrow> (string \<times> nat) list" where
  "ancestors_for g i = fold (\<lambda>(commit_id, distance). store_put commit_id distance) (ancestor_rows g i) []"

text \<open>
  \<open>min(ancestors, key=...)\<close> returns the first of the least elements in the order the set
  is walked. Python does not fix that order; here it is the order of the keys of the
  source's dict.
\<close>

fun min_by :: "('a \<Rightarrow> nat) \<Rightarrow> 'a \<Rightarrow> 'a list \<Rightarrow> 'a" where
  "min_by key best [] = best"
| "min_by key best (x # xs) = min_by key (if key x < key best then x else best) xs"

definition distance_in :: "(string \<times> nat) list \<Rightarrow> string \<Rightarrow> nat" where
  "distance_in ancestors cid = (case map_of ancestors cid of Some d \<Rightarrow> d | None \<Rightarrow> 0)"

definition lca_of :: "(string \<times> nat) list \<Rightarrow> (string \<times> nat) list \<Rightarrow> string option" where
  "lca_of ancestors_for_1 ancestors_for_2 =
     (let ancestors = filter (\<lambda>cid. cid \<in> set (map fst ancestors_for_2)) (map fst ancestors_for_1)
      in case ancestors of
           [] \<Rightarrow> None
         | c # cs \<Rightarrow>
             Some (min_by (\<lambda>cid. distance_in ancestors_for_1 cid + distance_in ancestors_for_2 cid)
                     c cs))"

definition lca :: "graph \<Rightarrow> string \<Rightarrow> string \<Rightarrow> string option" where
  "lca g head_for_source_id head_for_target_id =
     lca_of (ancestors_for g head_for_source_id) (ancestors_for g head_for_target_id)"

text \<open>
  \<open>merge_branches\<close>. The pair returned is what the call raises or returns and the state
  it leaves behind. The last step of the three successful cases is \<open>update_head\<close>.
\<close>

definition commit_merge ::
  "string \<Rightarrow> string \<Rightarrow> string \<Rightarrow> string \<Rightarrow> string \<Rightarrow> string \<Rightarrow> string \<Rightarrow> bool \<Rightarrow> state
     \<Rightarrow> (error + unit) \<times> state" where
  "commit_merge source_branch target_branch head_for_source_id head_for_target_id user_id message
     timestamp terminate st =
     (case merge_commit head_for_source_id head_for_target_id user_id message timestamp st of
        (Inl e, st1) \<Rightarrow> (Inl e, st1)
      | (Inr merge_id, st1) \<Rightarrow>
          (let g = (if terminate then snd (terminate_branch source_branch (db st1)) else db st1)
           in (Inr (), st1\<lparr>db := update_head target_branch merge_id g\<rparr>)))"

definition merge_branches ::
  "(string \<Rightarrow> string) \<Rightarrow> string \<Rightarrow> string \<Rightarrow> string \<Rightarrow> string \<Rightarrow> string \<Rightarrow> state
     \<Rightarrow> (error + unit) \<times> state" where
  "merge_branches sha1 source_branch target_branch user_id message timestamp st =
     (case head_commit (db st) source_branch of
        None \<Rightarrow> (Inl (No_HEAD_found target_branch), st)
      | Some head_for_source_id \<Rightarrow>
     (case head_commit (db st) target_branch of
        None \<Rightarrow> (Inl (No_HEAD_found target_branch), st)
      | Some head_for_target_id \<Rightarrow>
     (case lca (db st) head_for_source_id head_for_target_id of
        None \<Rightarrow> (Inl No_common_ancestor, st)
      | Some lca_id \<Rightarrow>
          (let hash_for_ancestor_dir = fst (fetch_version_hash sha1 (bucket st) lca_id);
               hash_for_source_dir = fst (fetch_version_hash sha1 (bucket st) head_for_source_id);
               hash_for_target_dir = fst (fetch_version_hash sha1 (bucket st) head_for_target_id)
           in if hash_for_ancestor_dir = hash_for_target_dir
                 \<and> hash_for_ancestor_dir \<noteq> hash_for_source_dir
              then commit_merge source_branch target_branch head_for_source_id head_for_target_id
                     user_id message timestamp True
                     (st\<lparr>cwd := revert_to_commit (bucket st) head_for_source_id (cwd st)\<rparr>)
              else if hash_for_ancestor_dir \<noteq> hash_for_target_dir
                      \<and> hash_for_ancestor_dir = hash_for_source_dir
              then commit_merge source_branch target_branch head_for_source_id head_for_target_id
                     user_id message timestamp False
                     (st\<lparr>cwd := revert_to_commit (bucket st) head_for_target_id (cwd st)\<rparr>)
              else if hash_for_ancestor_dir = hash_for_target_dir
                      \<and> hash_for_target_dir = hash_for_source_dir
              then commit_merge source_branch target_branch head_for_source_id head_for_target_id
                     user_id message timestamp False st
              else (Inl Conflicting_versions, st)))))"


section \<open>The distances as the specification words them\<close>

text \<open>
  The specification has \<open>ancestorsWithDistance\<close> record, for an ancestor that several
  parent chains reach, the least distance observed. \<open>spec_ancestors_with_distance\<close> is
  that reading of the same rows, to set beside \<open>ancestors_for\<close>.
\<close>

definition spec_ancestors_with_distance :: "graph \<Rightarrow> string \<Rightarrow> (string \<times> nat) list" where
  "spec_ancestors_with_distance g i =
     fold (\<lambda>(commit_id, distance) m.
             store_put commit_id
               (case map_of m commit_id of None \<Rightarrow> distance | Some d \<Rightarrow> min d distance) m)
       (ancestor_rows g i) []"

section \<open>Observations on a graph\<close>

text \<open>
  \<open>recorded\<close>: the graph has a node equal to \<open>v\<close>. \<open>has_parents\<close>: some such node has a
  \<open>PARENT\<close> relationship to a commit of the one id and one to a commit of the other.
\<close>

definition recorded :: "graph \<Rightarrow> node \<Rightarrow> bool" where
  "recorded g v = (match_nodes g (\<lambda>w. w = v) \<noteq> [])"

definition has_parents :: "graph \<Rightarrow> node \<Rightarrow> string \<Rightarrow> string \<Rightarrow> bool" where
  "has_parents g v source_id target_id =
     list_ex
       (\<lambda>c. list_ex (\<lambda>a. (c, PARENT, a) \<in> set (edges g)) (match_nodes g (is_commit source_id))
            \<and> list_ex (\<lambda>b. (c, PARENT, b) \<in> set (edges g)) (match_nodes g (is_commit target_id)))
       (match_nodes g (\<lambda>w. w = v))"

section \<open>Example histories\<close>

text \<open>
  The state after the start-up of \<open>main\<close> on an empty store: the branch \<open>master\<close> is
  created from \<open>root_commit\<close> and the local pointer is set to that id.
\<close>

definition st_init :: state where
  "st_init =
     \<lparr>db = create_branch ''master'' ''root_commit'' \<lparr>nodes = [], edges = []\<rparr>,
      config_file = Some ''root_commit'', current_branch = ''master'', bucket = [], cwd = []\<rparr>"

text \<open>
  \<open>commit c1\<close> of an empty directory on \<open>master\<close>, then \<open>branch dev --commit_id c1\<close>: both
  branches stand at \<open>c1\<close>, whose only ancestor is \<open>root_commit\<close>.
\<close>

definition st_branched :: state where
  "st_branched =
     snd (create_branch_from_commit ''dev'' ''c1''
            (create_commit ''c1'' ''first'' ''ann'' [] ''t1'' ''master'' st_init))"

text \<open>Then \<open>commit c2 --branch_name dev\<close> of a directory that holds one file.\<close>

definition st_ahead :: state where
  "st_ahead =
     create_commit ''c2'' ''second'' ''ann'' [(''a.txt'', ''x'')] ''t2'' ''dev'' st_branched"

text \<open>The same two commits, each with a file of its own.\<close>

definition st_diverged :: state where
  "st_diverged =
     create_commit ''c2'' ''second'' ''ann'' [(''a.txt'', ''y'')] ''t2'' ''dev''
       (snd (create_branch_from_commit ''dev'' ''c1''
               (create_commit ''c1'' ''first'' ''ann'' [(''a.txt'', ''x'')] ''t1'' ''master''
                  st_init)))"

text \<open>The same history as \<open>st_branched\<close> with a commit id that does not end in a digit.\<close>

definition st_named :: state where
  "st_named =
     snd (create_branch_from_commit ''dev'' ''first''
            (create_commit ''first'' ''first'' ''ann'' [] ''t1'' ''master'' st_init))"

text \<open>
  \<open>st_branched\<close> and then \<open>commit c2 --branch_name dev\<close> of an empty directory: \<open>dev\<close> is
  one commit ahead of \<open>master\<close> and every snapshot is empty, so a merge in either
  direction finds nothing changed.
\<close>

definition st_linear :: state where
  "st_linear = create_commit ''c2'' ''second'' ''ann'' [] ''t2'' ''dev'' st_branched"

text \<open>
  A history with three merges, every snapshot empty: \<open>commit x1\<close> on \<open>master\<close>;
  \<open>branch b --commit_id x1\<close> and \<open>commit p1 --branch_name b\<close>;
  \<open>branch y --commit_id root_commit\<close> and \<open>commit y1 --branch_name y\<close>; then
  \<open>merge y b\<close> (which makes \<open>y2\<close>), \<open>merge master b\<close> (\<open>y3\<close>) and \<open>merge y master\<close>
  (\<open>y4\<close>). The head of \<open>b\<close> is \<open>y3\<close> and the head of \<open>master\<close> is \<open>y4\<close>. The digests
  of empty snapshots are equal whatever the digest function.
\<close>

definition st_forked :: state where
  "st_forked =
     create_commit ''y1'' ''m'' ''ann'' [] ''t3'' ''y''
       (snd (create_branch_from_commit ''y'' ''root_commit''
          (create_commit ''p1'' ''m'' ''ann'' [] ''t2'' ''b''
             (snd (create_branch_from_commit ''b'' ''x1''
                (create_commit ''x1'' ''m'' ''ann'' [] ''t1'' ''master'' st_init))))))"

definition st_crossed :: "(string \<Rightarrow> string) \<Rightarrow> state" where
  "st_crossed sha1 =
     snd (merge_branches sha1 ''y'' ''master'' ''ann'' ''m'' ''t6''
       (snd (merge_branches sha1 ''master'' ''b'' ''ann'' ''m'' ''t5''
          (snd (merge_branches sha1 ''y'' ''b'' ''ann'' ''m'' ''t4'' st_forked)))))"

text \<open>A digest function to compute with: the bytes themselves.\<close>

definition plain :: "string \<Rightarrow> string" where
  "plain bs = bs"

section \<open>Properties\<close>

subsection \<open>Evaluation\<close>

lemmas graph_defs =
  node_at_def is_commit_def match_nodes_def create_node_def merge_node_def
  merge_commit_by_id_def create_edges_def head_rows_def single_def head_commit_def
  branch_exists_def is_head_edge_def update_head_def create_branch_def detach_delete_def
  terminate_branch_def

lemmas store_defs =
  startswith_def endswith_slash_def path_join_def object_key_def s3_store_def paginate_def
  list_objects_v2_def top_item_def revert_to_commit_def git_blob_def file_sha1_def
  listing_key_def file_hashes_def directory_sha1_def fetch_version_hash_def str_nat.simps

lemmas op_defs =
  switch_branch_def create_branch_from_commit_def link_parent_def create_commit_def
  int_of_digit_def merge_rows_def merge_commit_def ancestor_rows_def ancestors_for_def
  distance_in_def lca_of_def lca_def commit_merge_def merge_branches_def

lemmas example_defs =
  st_init_def st_branched_def st_ahead_def st_diverged_def st_named_def st_linear_def plain_def

lemma st_init_eq:
  "st_init =
     \<lparr>db = \<lparr>nodes = [Some (Branch ''master''), Some (Commit ''root_commit'' None None),
                      Some (HEAD ''master'')],
             edges = [(0, BASE, 1), (2, POINTS_TO, 1)]\<rparr>,
      config_file = Some ''root_commit'', current_branch = ''master'', bucket = [], cwd = []\<rparr>"
  by (simp add: st_init_def graph_defs Let_def)

lemma st_branched_eq:
  "st_branched =
     \<lparr>db = \<lparr>nodes = [Some (Branch ''master''), Some (Commit ''root_commit'' None None),
                      Some (HEAD ''master''), Some (Commit ''c1'' (Some ''first'') (Some ''t1'')),
                      Some (User ''ann''), Some (Branch ''dev''), Some (HEAD ''dev'')],
             edges = [(0, BASE, 1), (3, MADE_BY, 4), (3, PARENT, 1), (2, POINTS_TO, 3),
                      (5, BASE, 3), (6, POINTS_TO, 3)]\<rparr>,
      config_file = Some ''c1'', current_branch = ''dev'', bucket = [], cwd = []\<rparr>"
  by (simp add: example_defs graph_defs store_defs op_defs Let_def)

lemma st_ahead_eq:
  "st_ahead =
     \<lparr>db = \<lparr>nodes = [Some (Branch ''master''), Some (Commit ''root_commit'' None None),
                      Some (HEAD ''master''), Some (Commit ''c1'' (Some ''first'') (Some ''t1'')),
                      Some (User ''ann''), Some (Branch ''dev''), Some (HEAD ''dev''),
                      Some (Commit ''c2'' (Some ''second'') (Some ''t2''))],
             edges = [(0, BASE, 1), (3, MADE_BY, 4), (3, PARENT, 1), (2, POINTS_TO, 3),
                      (5, BASE, 3), (7, MADE_BY, 4), (7, PARENT, 3), (6, POINTS_TO, 7)]\<rparr>,
      config_file = Some ''c2'', current_branch = ''dev'', bucket = [(''c2/a.txt'', ''x'')],
      cwd = []\<rparr>"
  by (simp add: st_ahead_def st_branched_eq graph_defs store_defs op_defs Let_def)

lemma st_diverged_eq:
  "st_diverged =
     \<lparr>db = \<lparr>nodes = [Some (Branch ''master''), Some (Commit ''root_commit'' None None),
                      Some (HEAD ''master''), Some (Commit ''c1'' (Some ''first'') (Some ''t1'')),
                      Some (User ''ann''), Some (Branch ''dev''), Some (HEAD ''dev''),
                      Some (Commit ''c2'' (Some ''second'') (Some ''t2''))],
             edges = [(0, BASE, 1), (3, MADE_BY, 4), (3, PARENT, 1), (2, POINTS_TO, 3),
                      (5, BASE, 3), (7, MADE_BY, 4), (7, PARENT, 3), (6, POINTS_TO, 7)]\<rparr>,
      config_file = Some ''c2'', current_branch = ''dev'',
      bucket = [(''c1/a.txt'', ''x''), (''c2/a.txt'', ''y'')], cwd = []\<rparr>"
  by (simp add: example_defs graph_defs store_defs op_defs Let_def)

lemma st_named_eq:
  "st_named =
     \<lparr>db = \<lparr>nodes = [Some (Branch ''master''), Some (Commit ''root_commit'' None None),
                      Some (HEAD ''master''), Some (Commit ''first'' (Some ''first'') (Some ''t1'')),
                      Some (User ''ann''), Some (Branch ''dev''), Some (HEAD ''dev'')],
             edges = [(0, BASE, 1), (3, MADE_BY, 4), (3, PARENT, 1), (2, POINTS_TO, 3),
                      (5, BASE, 3), (6, POINTS_TO, 3)]\<rparr>,
      config_file = Some ''first'', current_branch = ''dev'', bucket = [], cwd = []\<rparr>"
  by (simp add: example_defs graph_defs store_defs op_defs Let_def)

lemma st_linear_eq:
  "st_linear =
     \<lparr>db = \<lparr>nodes = [Some (Branch ''master''), Some (Commit ''root_commit'' None None),
                      Some (HEAD ''master''), Some (Commit ''c1'' (Some ''first'') (Some ''t1'')),
                      Some (User ''ann''), Some (Branch ''dev''), Some (HEAD ''dev''),
                      Some (Commit ''c2'' (Some ''second'') (Some ''t2''))],
             edges = [(0, BASE, 1), (3, MADE_BY, 4), (3, PARENT, 1), (2, POINTS_TO, 3),
                      (5, BASE, 3), (7, MADE_BY, 4), (7, PARENT, 3), (6, POINTS_TO, 7)]\<rparr>,
      config_file = Some ''c2'', current_branch = ''dev'', bucket = [], cwd = []\<rparr>"
  by (simp add: st_linear_def st_branched_eq graph_defs store_defs op_defs Let_def)

subsection \<open>Matching nodes\<close>

lemma find_from_iff:
  "n \<in> set (find_from i P ns) \<longleftrightarrow>
     i \<le> n \<and> n - i < length ns \<and> (\<exists>v. ns ! (n - i) = Some v \<and> P v)"
proof (induction ns arbitrary: i)
  case Nil
  then show ?case by simp
next
  case (Cons x xs)
  have step: "n - i = Suc (n - Suc i)" if "i < n" using that by simp
  show ?case
  proof (cases "n = i")
    case True
    have "n \<notin> set (find_from (Suc n) P xs)" using Cons [of "Suc n"] by simp
    with True show ?thesis by (auto split: option.splits)
  next
    case False
    then show ?thesis using step
      by (auto simp: Cons nth_Cons' Suc_le_eq split: option.splits)
  qed
qed

lemma match_nodes_iff:
  "n \<in> set (match_nodes g P) \<longleftrightarrow> (\<exists>v. node_at g n = Some v \<and> P v)"
  by (auto simp: match_nodes_def node_at_def find_from_iff)

lemma match_nodes_nonempty:
  "node_at g n = Some v \<Longrightarrow> P v \<Longrightarrow> match_nodes g P \<noteq> []"
  using match_nodes_iff [of n g P] by auto

lemma match_nodes_obtain:
  assumes "match_nodes g P \<noteq> []"
  obtains n v where "node_at g n = Some v" and "P v" and "n \<in> set (match_nodes g P)"
proof -
  from assms obtain n where "n \<in> set (match_nodes g P)"
    by (cases "match_nodes g P") auto
  then show ?thesis using that by (auto simp: match_nodes_iff)
qed

lemma find_from_append:
  "find_from i P (xs @ ys) = find_from i P xs @ find_from (i + length xs) P ys"
  by (induction xs arbitrary: i) auto

lemma match_nodes_create_node:
  "match_nodes (create_node v g) P
     = match_nodes g P @ (if P v then [length (nodes g)] else [])"
  by (simp add: match_nodes_def create_node_def find_from_append)

lemma match_nodes_create_edges [simp]: "match_nodes (create_edges es g) P = match_nodes g P"
  by (simp add: match_nodes_def create_edges_def)

lemma node_at_create_node:
  "node_at (create_node v g) n =
     (if n = length (nodes g) then Some v else node_at g n)"
  by (auto simp: node_at_def create_node_def nth_append)

lemma node_at_create_edges [simp]: "node_at (create_edges es g) n = node_at g n"
  by (simp add: node_at_def create_edges_def)

lemma node_at_length [simp]: "node_at g (length (nodes g)) = None"
  by (simp add: node_at_def)

lemma merge_node_rows:
  assumes "merge_node v g = (cs, g')"
  shows "cs \<noteq> [] \<and> (\<forall>c \<in> set cs. node_at g' c = Some v)"
proof (cases "match_nodes g (\<lambda>w. w = v)")
  case Nil
  with assms show ?thesis
    by (auto simp: merge_node_def node_at_create_node)
next
  case (Cons n ns)
  with assms have "cs = match_nodes g (\<lambda>w. w = v)" and "g' = g" and "cs \<noteq> []"
    by (auto simp: merge_node_def)
  then show ?thesis
    using match_nodes_iff [of _ g "\<lambda>w. w = v"] by auto
qed

lemma merge_node_match_other:
  assumes "merge_node v g = (cs, g')" and "\<not> P v"
  shows "match_nodes g' P = match_nodes g P"
  using assms by (auto simp: merge_node_def match_nodes_create_node split: list.splits)

lemma merge_node_edges:
  assumes "merge_node v g = (cs, g')"
  shows "edges g' = edges g"
  using assms by (auto simp: merge_node_def create_node_def split: list.splits)

lemma merge_node_old_nodes:
  assumes "merge_node v g = (cs, g')" and "node_at g n = Some w"
  shows "node_at g' n = Some w"
  using assms by (auto simp: merge_node_def node_at_create_node split: list.splits if_splits)

lemma merge_node_new_nodes:
  assumes "merge_node v g = (cs, g')" and "node_at g' n = Some w" and "w \<noteq> v"
  shows "node_at g n = Some w"
  using assms by (auto simp: merge_node_def node_at_create_node split: list.splits if_splits)

subsection \<open>Heads\<close>

lemma head_rows_no_head:
  assumes "match_nodes g (\<lambda>v. v = HEAD b) = []"
  shows "head_rows g b = []"
proof -
  have "node_at g h \<noteq> Some (HEAD b)" for h
    using match_nodes_iff [of h g "\<lambda>v. v = HEAD b"] assms by auto
  then show ?thesis
    by (simp add: head_rows_def List.map_filter_def case_prod_beta)
qed

lemma no_head_node_no_head_edge:
  assumes "match_nodes g (\<lambda>v. v = HEAD b) = []"
  shows "\<not> is_head_edge g b e"
  using match_nodes_iff [of "fst e" g "\<lambda>v. v = HEAD b"] assms
  by (auto simp: is_head_edge_def)

lemma update_head_no_head_node:
  assumes "match_nodes g (\<lambda>v. v = HEAD b) = []"
  shows "update_head b i g = g"
  by (simp add: update_head_def Let_def no_head_node_no_head_edge [OF assms])

lemma node_at_update_head [simp]: "node_at (update_head b i g) n = node_at g n"
  by (simp add: update_head_def node_at_def Let_def)

lemma match_nodes_update_head [simp]: "match_nodes (update_head b i g) P = match_nodes g P"
  by (simp add: update_head_def match_nodes_def Let_def)

lemma edges_update_head:
  "edges (update_head b i g)
     = filter (\<lambda>e. \<not> is_head_edge g b e) (edges g)
       @ concat (map (\<lambda>h. map (\<lambda>c. (h, POINTS_TO, c)) (match_nodes g (is_commit i)))
                   (map fst (filter (is_head_edge g b) (edges g))))"
  by (simp add: update_head_def Let_def)

lemma set_head_rows:
  "set (head_rows g b)
     = {i. \<exists>h c v. (h, POINTS_TO, c) \<in> set (edges g) \<and> node_at g h = Some (HEAD b)
                    \<and> node_at g c = Some v \<and> commit_id_of v = Some i}"
  by (auto simp: head_rows_def List.map_filter_def image_iff Option.bind_eq_Some_conv
      split: if_splits) force+

lemma single_Some_mem: "single xs = Some x \<Longrightarrow> x \<in> set xs"
  by (cases xs) (auto simp: single_def)

lemma single_constant: "xs \<noteq> [] \<Longrightarrow> \<forall>x \<in> set xs. x = i \<Longrightarrow> single xs = Some i"
  by (cases xs) (auto simp: single_def)

lemma head_commit_edge:
  assumes "head_commit g b = Some i"
  obtains h c v where "(h, POINTS_TO, c) \<in> set (edges g)" and "node_at g h = Some (HEAD b)"
    and "node_at g c = Some v" and "commit_id_of v = Some i"
proof -
  from assms have "i \<in> set (head_rows g b)"
    by (simp add: head_commit_def single_Some_mem)
  then show ?thesis using that by (auto simp: set_head_rows)
qed

lemma head_commit_update_head:
  assumes "(h, POINTS_TO, x) \<in> set (edges g)" and "node_at g h = Some (HEAD b)"
    and "match_nodes g (is_commit i) \<noteq> []"
  shows "head_commit (update_head b i g) b = Some i"
proof -
  let ?g = "update_head b i g"
  obtain c where c: "c \<in> set (match_nodes g (is_commit i))"
    using assms(3) by (cases "match_nodes g (is_commit i)") auto
  then obtain v where v: "node_at g c = Some v" "commit_id_of v = Some i"
    by (auto simp: match_nodes_iff is_commit_def)
  have he: "is_head_edge g b (h, POINTS_TO, x)"
    using assms(2) by (simp add: is_head_edge_def)
  have "(h, POINTS_TO, c) \<in> set (edges ?g)"
    using assms(1) he c by (force simp: edges_update_head)
  then have "i \<in> set (head_rows ?g b)"
    using assms(2) v by (auto simp: set_head_rows)
  moreover have "j = i" if "j \<in> set (head_rows ?g b)" for j
  proof -
    from that obtain h' c' v' where e: "(h', POINTS_TO, c') \<in> set (edges ?g)"
      and h': "node_at g h' = Some (HEAD b)" and c': "node_at g c' = Some v'"
      and j: "commit_id_of v' = Some j"
      by (auto simp: set_head_rows)
    from h' have "is_head_edge g b (h', POINTS_TO, c')" by (simp add: is_head_edge_def)
    with e have "c' \<in> set (match_nodes g (is_commit i))"
      by (auto simp: edges_update_head)
    with c' j show ?thesis by (auto simp: match_nodes_iff is_commit_def)
  qed
  ultimately show ?thesis
    unfolding head_commit_def by (intro single_constant) auto
qed

lemma is_head_edge_update_head_other:
  assumes "b' \<noteq> b"
  shows "filter (is_head_edge (update_head b i g) b') (edges (update_head b i g))
           = filter (is_head_edge g b') (edges g)"
proof -
  have same: "is_head_edge (update_head b i g) b' = is_head_edge g b'"
    by (rule ext) (simp add: is_head_edge_def)
  have "filter (is_head_edge g b') (filter (\<lambda>e. \<not> is_head_edge g b e) (edges g))
          = filter (is_head_edge g b') (edges g)"
    using assms by (auto simp: is_head_edge_def intro: filter_cong)
  moreover have "filter (is_head_edge g b')
      (concat (map (\<lambda>h. map (\<lambda>c. (h, POINTS_TO, c)) (match_nodes g (is_commit i)))
                 (map fst (filter (is_head_edge g b) (edges g))))) = []"
    using assms by (auto simp: filter_empty_conv is_head_edge_def)
  ultimately show ?thesis
    by (simp add: same edges_update_head)
qed

subsection \<open>Terminating a branch\<close>

lemma length_delete_nodes [simp]: "length (delete_nodes ds ns) = length ns"
  by (induction ds arbitrary: ns) auto

lemma nth_delete_nodes:
  "n < length ns \<Longrightarrow> delete_nodes ds ns ! n = (if n \<in> set ds then None else ns ! n)"
  by (induction ds arbitrary: ns) (auto simp: nth_list_update)

lemma node_at_detach_delete:
  "node_at (detach_delete ds g) n = (if n \<in> set ds then None else node_at g n)"
  by (simp add: node_at_def detach_delete_def nth_delete_nodes)

lemma edges_detach_delete:
  "edges (detach_delete ds g)
     = filter (\<lambda>e. fst e \<notin> set ds \<and> snd (snd e) \<notin> set ds) (edges g)"
  by (simp add: detach_delete_def)

lemma node_at_terminate_branch_keep:
  assumes "node_at g n = Some v" and "v \<noteq> Branch b" and "v \<noteq> HEAD b"
  shows "node_at (snd (terminate_branch b g)) n = Some v"
  using assms
  by (auto simp: terminate_branch_def Let_def node_at_detach_delete match_nodes_iff)

lemma node_at_terminate_branch_old:
  "node_at (snd (terminate_branch b g)) n = Some v \<Longrightarrow> node_at g n = Some v"
  by (auto simp: terminate_branch_def Let_def node_at_detach_delete split: if_splits)

lemma edges_terminate_branch_keep:
  assumes "(x, r, y) \<in> set (edges g)"
    and "node_at g x = Some v" and "v \<noteq> Branch b" and "v \<noteq> HEAD b"
    and "node_at g y = Some w" and "w \<noteq> Branch b" and "w \<noteq> HEAD b"
  shows "(x, r, y) \<in> set (edges (snd (terminate_branch b g)))"
  using assms
  by (auto simp: terminate_branch_def Let_def edges_detach_delete match_nodes_iff)

lemma terminate_branch_gone:
  assumes "match_nodes g (\<lambda>v. v = HEAD b) \<noteq> []"
  shows "\<not> branch_exists (snd (terminate_branch b g)) b"
proof -
  have "n \<notin> set (match_nodes (snd (terminate_branch b g)) (\<lambda>v. v = Branch b))" for n
    using assms match_nodes_nonempty [of g n "Branch b" "\<lambda>v. v = Branch b"]
    by (auto simp: terminate_branch_def Let_def match_nodes_iff node_at_detach_delete)
  then have "match_nodes (snd (terminate_branch b g)) (\<lambda>v. v = Branch b) = []"
    by (cases "match_nodes (snd (terminate_branch b g)) (\<lambda>v. v = Branch b)") auto
  then show ?thesis by (simp add: branch_exists_def)
qed

lemma terminate_branch_head_gone:
  assumes "branch_exists g b"
  shows "match_nodes (snd (terminate_branch b g)) (\<lambda>v. v = HEAD b) = []"
proof -
  have "n \<notin> set (match_nodes (snd (terminate_branch b g)) (\<lambda>v. v = HEAD b))" for n
    using assms match_nodes_nonempty [of g n "HEAD b" "\<lambda>v. v = HEAD b"]
    by (auto simp: terminate_branch_def Let_def match_nodes_iff node_at_detach_delete
        branch_exists_def)
  then show ?thesis
    by (cases "match_nodes (snd (terminate_branch b g)) (\<lambda>v. v = HEAD b)") auto
qed

subsection \<open>The merge commit\<close>

lemma int_of_digit_Some:
  "int_of_digit c = Some n \<Longrightarrow> n < 10 \<and> ''0123456789'' ! n = c"
  by (auto simp: int_of_digit_def split: if_splits)

lemma merge_rows_mem:
  assumes "c \<in> set cs" and "a \<in> set as" and "b \<in> set bs" and "u \<in> set us"
  shows "(c, PARENT, a) \<in> set (merge_rows cs as bs us)"
    and "(c, PARENT, b) \<in> set (merge_rows cs as bs us)"
    and "(c, MADE_BY, u) \<in> set (merge_rows cs as bs us)"
  using assms by (fastforce simp: merge_rows_def)+

lemma merge_commit_result:
  assumes "config_file st = Some p" and "p \<noteq> []" and "int_of_digit (last p) = Some n"
  obtains cs g1 where
    "merge_node (Commit (butlast p @ str_nat (n + 1)) (Some message) (Some timestamp)) (db st)
       = (cs, g1)"
    and "merge_commit commit1 commit2 user_id message timestamp st
           = (Inr (butlast p @ str_nat (n + 1)),
              st\<lparr>db := create_edges
                          (merge_rows cs (match_nodes g1 (is_commit commit1))
                             (match_nodes g1 (is_commit commit2))
                             (match_nodes g1 (\<lambda>v. v = User user_id)))
                          g1,
                  config_file := Some (butlast p @ str_nat (n + 1))\<rparr>)"
proof -
  obtain cs g1 where
    m: "merge_node (Commit (butlast p @ str_nat (n + 1)) (Some message) (Some timestamp)) (db st)
          = (cs, g1)"
    by (cases "merge_node (Commit (butlast p @ str_nat (n + 1)) (Some message) (Some timestamp))
                 (db st)")
  show ?thesis
    using assms m by (intro that [OF m]) (simp add: merge_commit_def Let_def)
qed

lemma commit_merge_outcome:
  assumes mid_def: "mid = butlast p @ str_nat (n + 1)"
    and v_def: "v = Commit (butlast p @ str_nat (n + 1)) (Some message) (Some timestamp)"
    and p: "config_file st = Some p" "p \<noteq> []" "int_of_digit (last p) = Some n"
    and hs: "head_commit (db st) source = Some hs"
    and ht: "head_commit (db st) target = Some ht"
    and ne: "terminate \<Longrightarrow> source \<noteq> target"
    and r: "commit_merge source target hs ht user_id message timestamp terminate st = (r, st')"
  shows "r = Inr ()"
    and "cwd st' = cwd st"
    and "config_file st' = Some mid"
    and "head_commit (db st') target = Some mid"
    and "recorded (db st') v"
    and "match_nodes (db st) (\<lambda>w. w = User user_id) \<noteq> [] \<Longrightarrow> has_parents (db st') v hs ht"
    and "terminate \<Longrightarrow> \<not> branch_exists (db st') source"
    and "terminate \<Longrightarrow> branch_exists (db st) source \<Longrightarrow> head_commit (db st') source = None"
    and "\<not> terminate \<Longrightarrow>
           match_nodes (db st') (\<lambda>w. w = Branch source) = match_nodes (db st) (\<lambda>w. w = Branch source)"
    and "\<not> terminate \<Longrightarrow>
           match_nodes (db st') (\<lambda>w. w = HEAD source) = match_nodes (db st) (\<lambda>w. w = HEAD source)"
    and "\<not> terminate \<Longrightarrow> source \<noteq> target \<Longrightarrow>
           filter (is_head_edge (db st') source) (edges (db st'))
             = filter (is_head_edge (db st) source) (edges (db st))"
proof -
  obtain cs g1 where m: "merge_node v (db st) = (cs, g1)"
    and mc: "merge_commit hs ht user_id message timestamp st
               = (Inr mid,
                  st\<lparr>db := create_edges
                              (merge_rows cs (match_nodes g1 (is_commit hs))
                                 (match_nodes g1 (is_commit ht))
                                 (match_nodes g1 (\<lambda>w. w = User user_id)))
                              g1,
                      config_file := Some mid\<rparr>)"
    unfolding mid_def v_def by (rule merge_commit_result [OF p])
  define rows where "rows = merge_rows cs (match_nodes g1 (is_commit hs))
                              (match_nodes g1 (is_commit ht)) (match_nodes g1 (\<lambda>w. w = User user_id))"
  define g2 where "g2 = create_edges rows g1"
  define g' where "g' = (if terminate then snd (terminate_branch source g2) else g2)"
  have res: "r = Inr ()" "st' = st\<lparr>db := update_head target mid g', config_file := Some mid\<rparr>"
    using r mc by (auto simp: commit_merge_def Let_def g'_def g2_def rows_def)
  have old: "node_at g2 k = Some w" if "node_at (db st) k = Some w" for k w
    using merge_node_old_nodes [OF m that] by (simp add: g2_def)
  have e2: "edges g2 = edges (db st) @ rows"
    using merge_node_edges [OF m] by (simp add: g2_def create_edges_def)
  from merge_node_rows [OF m] obtain c0 where c0: "c0 \<in> set cs" "node_at g2 c0 = Some v"
    by (cases cs) (auto simp: g2_def)
  have commit_not: "v \<noteq> Branch source" "v \<noteq> HEAD source" by (simp_all add: v_def)
  have keep: "node_at g' k = Some w"
    if "node_at g2 k = Some w" "w \<noteq> Branch source" "w \<noteq> HEAD source" for k w
    using that node_at_terminate_branch_keep [of g2 k w source] by (simp add: g'_def)
  have keep_edge: "(x, rl, y) \<in> set (edges g')"
    if "(x, rl, y) \<in> set (edges g2)" "node_at g2 x = Some w" "w \<noteq> Branch source"
      "w \<noteq> HEAD source" "node_at g2 y = Some w'" "w' \<noteq> Branch source" "w' \<noteq> HEAD source"
    for x rl y w w'
    using that edges_terminate_branch_keep [of x rl y g2 w source w'] by (simp add: g'_def)
  from ht obtain h c w where hc: "(h, POINTS_TO, c) \<in> set (edges (db st))"
    "node_at (db st) h = Some (HEAD target)" "node_at (db st) c = Some w" "commit_id_of w = Some ht"
    by (rule head_commit_edge)
  from hs obtain hh cc ww where hcs: "(hh, POINTS_TO, cc) \<in> set (edges (db st))"
    "node_at (db st) hh = Some (HEAD source)" "node_at (db st) cc = Some ww"
    "commit_id_of ww = Some hs"
    by (rule head_commit_edge)
  have wc: "w \<noteq> Branch source" "w \<noteq> HEAD source" "ww \<noteq> Branch source" "ww \<noteq> HEAD source"
    using hc(4) hcs(4) by auto
  show "r = Inr ()" by (rule res)
  show "cwd st' = cwd st" by (simp add: res)
  show "config_file st' = Some mid" by (simp add: res)
  show "head_commit (db st') target = Some mid"
  proof -
    have ht_keep: "HEAD target \<noteq> HEAD source \<or> \<not> terminate" using ne by auto
    have "(h, POINTS_TO, c) \<in> set (edges g')"
    proof (cases terminate)
      case True
      with ne have "HEAD target \<noteq> HEAD source" by simp
      then show ?thesis
        using keep_edge [of h POINTS_TO c "HEAD target" w] hc wc old by (simp add: e2)
    next
      case False
      then show ?thesis using hc by (simp add: g'_def e2)
    qed
    moreover have "node_at g' h = Some (HEAD target)"
    proof (cases terminate)
      case True
      with ne have "HEAD target \<noteq> HEAD source" by simp
      then show ?thesis using keep [of h "HEAD target"] old hc by simp
    next
      case False
      then show ?thesis using old hc by (simp add: g'_def)
    qed
    moreover have "node_at g' c0 = Some v"
      using keep [OF c0(2) commit_not] .
    then have "match_nodes g' (is_commit mid) \<noteq> []"
      by (rule match_nodes_nonempty) (simp add: is_commit_def v_def mid_def)
    ultimately show ?thesis
      by (simp add: res head_commit_update_head)
  qed
  have v_final: "node_at (update_head target mid g') c0 = Some v"
    using keep [OF c0(2) commit_not] by simp
  show "recorded (db st') v"
    unfolding recorded_def res using match_nodes_nonempty [OF v_final, of "\<lambda>w. w = v"]
    by simp
  show "has_parents (db st') v hs ht" if u: "match_nodes (db st) (\<lambda>w. w = User user_id) \<noteq> []"
  proof -
    from u obtain u0 where "node_at (db st) u0 = Some (User user_id)"
      by (rule match_nodes_obtain) auto
    then have "node_at g1 u0 = Some (User user_id)" by (rule merge_node_old_nodes [OF m])
    then have u0: "u0 \<in> set (match_nodes g1 (\<lambda>w. w = User user_id))"
      by (simp add: match_nodes_iff)
    have a0: "cc \<in> set (match_nodes g1 (is_commit hs))"
      using merge_node_old_nodes [OF m hcs(3)] hcs(4) by (simp add: match_nodes_iff is_commit_def)
    have b0: "c \<in> set (match_nodes g1 (is_commit ht))"
      using merge_node_old_nodes [OF m hc(3)] hc(4) by (simp add: match_nodes_iff is_commit_def)
    have "(c0, PARENT, cc) \<in> set (edges g2)" "(c0, PARENT, c) \<in> set (edges g2)"
      using merge_rows_mem [OF c0(1) a0 b0 u0] by (simp_all add: e2 rows_def)
    then have "(c0, PARENT, cc) \<in> set (edges g')" "(c0, PARENT, c) \<in> set (edges g')"
      using keep_edge [of c0 PARENT _ v] c0(2) commit_not old [OF hcs(3)] old [OF hc(3)] wc
      by blast+
    then have pe: "(c0, PARENT, cc) \<in> set (edges (update_head target mid g'))"
      "(c0, PARENT, c) \<in> set (edges (update_head target mid g'))"
      by (simp_all add: edges_update_head is_head_edge_def)
    have "cc \<in> set (match_nodes (update_head target mid g') (is_commit hs))"
      "c \<in> set (match_nodes (update_head target mid g') (is_commit ht))"
      using keep [OF old [OF hcs(3)] wc(3,4)] keep [OF old [OF hc(3)] wc(1,2)] hcs(4) hc(4)
      by (simp_all add: match_nodes_iff is_commit_def)
    moreover have "c0 \<in> set (match_nodes (update_head target mid g') (\<lambda>w. w = v))"
      using v_final by (simp add: match_nodes_iff)
    ultimately show ?thesis
      unfolding has_parents_def res list_ex_iff using pe by auto
  qed
  have head_src: "match_nodes g2 (\<lambda>w. w = HEAD source) \<noteq> []"
    using old [OF hcs(2)] by (rule match_nodes_nonempty) simp
  show "\<not> branch_exists (db st') source" if terminate
    using terminate_branch_gone [OF head_src] that
    by (simp add: res g'_def branch_exists_def)
  show "head_commit (db st') source = None" if t: terminate and b: "branch_exists (db st) source"
  proof -
    from b obtain k where "node_at (db st) k = Some (Branch source)"
      unfolding branch_exists_def by (rule match_nodes_obtain) auto
    from old [OF this] have "branch_exists g2 source"
      unfolding branch_exists_def by (rule match_nodes_nonempty) simp
    from terminate_branch_head_gone [OF this] t
    have "match_nodes (update_head target mid g') (\<lambda>w. w = HEAD source) = []"
      by (simp add: g'_def)
    then show ?thesis
      by (simp add: res head_commit_def head_rows_no_head single_def)
  qed
  have same_match: "match_nodes g2 P = match_nodes (db st) P" if "\<not> P v" for P
    using merge_node_match_other [of v "db st" cs g1 P] m that by (simp add: g2_def)
  show "match_nodes (db st') (\<lambda>w. w = Branch source) = match_nodes (db st) (\<lambda>w. w = Branch source)"
    if "\<not> terminate"
    using that same_match [of "\<lambda>w. w = Branch source"] commit_not by (simp add: res g'_def)
  show "match_nodes (db st') (\<lambda>w. w = HEAD source) = match_nodes (db st) (\<lambda>w. w = HEAD source)"
    if "\<not> terminate"
    using that same_match [of "\<lambda>w. w = HEAD source"] commit_not by (simp add: res g'_def)
  show "filter (is_head_edge (db st') source) (edges (db st'))
          = filter (is_head_edge (db st) source) (edges (db st))"
    if nt: "\<not> terminate" and st: "source \<noteq> target"
  proof -
    have same: "is_head_edge g2 source e = is_head_edge (db st) source e" for e
    proof -
      have "node_at g2 (fst e) = Some (HEAD source) \<longleftrightarrow> node_at (db st) (fst e) = Some (HEAD source)"
        using old [of "fst e" "HEAD source"]
          merge_node_new_nodes [OF m, of "fst e" "HEAD source"] commit_not
        by (auto simp: g2_def)
      then show ?thesis by (simp add: is_head_edge_def)
    qed
    have "filter (is_head_edge g2 source) rows = []"
      by (auto simp: filter_empty_conv rows_def merge_rows_def is_head_edge_def)
    then have "filter (is_head_edge g2 source) (edges g2)
                 = filter (is_head_edge (db st) source) (edges (db st))"
      using same by (simp add: e2 cong: filter_cong)
    then show ?thesis
      using nt st by (simp add: res g'_def is_head_edge_update_head_other)
  qed
qed

subsection \<open>Digests\<close>

lemma filter_same_key:
  assumes "distinct (map f xs)" and "k \<in> set xs"
  shows "filter (\<lambda>x. f k = f x) xs = [k]"
  using assms
proof (induction xs)
  case Nil
  then show ?case by simp
next
  case (Cons x xs)
  show ?case
  proof (cases "x = k")
    case True
    with Cons.prems have "\<forall>y \<in> set xs. f k \<noteq> f y" by auto
    with True show ?thesis by (simp add: filter_empty_conv)
  next
    case False
    with Cons have "f k \<noteq> f x" by (auto simp: image_iff)
    with False Cons show ?thesis by simp
  qed
qed

lemma sort_key_permutation:
  assumes "mset ys = mset xs" and "distinct (map f xs)"
  shows "sort_key f ys = sort_key f xs"
proof (rule properties_for_sort_key)
  show "mset (sort_key f xs) = mset ys" using assms by simp
  show "sorted (map f (sort_key f xs))" by simp
next
  fix k assume k: "k \<in> set (sort_key f xs)"
  have "mset (map f ys) = mset (map f xs)" using assms by simp
  then have dy: "distinct (map f ys)" using assms(2) by (metis mset_eq_imp_distinct_iff)
  have "mset (map f (sort_key f xs)) = mset (map f xs)" by simp
  then have ds: "distinct (map f (sort_key f xs))"
    using assms(2) by (metis mset_eq_imp_distinct_iff)
  have "k \<in> set ys" using k assms(1) by (metis mset_eq_setD set_sort)
  then show "filter (\<lambda>x. f k = f x) (sort_key f xs) = filter (\<lambda>x. f k = f x) ys"
    using k dy ds by (simp add: filter_same_key)
qed

lemma directory_sha1_permutation:
  assumes "mset fhs' = mset fhs" and "distinct (map fst fhs)"
  shows "directory_sha1 sha1 fhs' = directory_sha1 sha1 fhs"
  by (simp add: directory_sha1_def sort_key_permutation [OF assms])

lemma file_hashes_snapshot:
  "file_hashes sha1 prefix contents =
     map (\<lambda>e. (fst e, file_sha1 sha1 (snd e)))
       (snapshot_entries prefix (sort_key (\<lambda>obj. listing_key prefix (fst obj)) contents))"
  by (simp add: file_hashes_def snapshot_entries_def comp_def)

lemma mset_snapshot_entries_sort:
  "mset (snapshot_entries prefix (sort_key h contents)) = mset (snapshot_entries prefix contents)"
  by (simp add: snapshot_entries_def)

lemma directory_sha1_snapshot:
  assumes "mset (snapshot_entries p1 c1) = mset (snapshot_entries p2 c2)"
    and "distinct (map fst (snapshot_entries p1 c1))"
  shows "directory_sha1 sha1 (file_hashes sha1 p1 c1) = directory_sha1 sha1 (file_hashes sha1 p2 c2)"
proof -
  let ?h1 = "\<lambda>obj. listing_key p1 (fst obj)" and ?h2 = "\<lambda>obj. listing_key p2 (fst obj)"
  let ?F = "\<lambda>e. (fst e, file_sha1 sha1 (snd e))"
  have "mset (file_hashes sha1 p2 c2) = image_mset ?F (mset (snapshot_entries p2 (sort_key ?h2 c2)))"
    by (simp add: file_hashes_snapshot)
  also have "\<dots> = image_mset ?F (mset (snapshot_entries p1 (sort_key ?h1 c1)))"
    by (simp only: mset_snapshot_entries_sort assms(1))
  also have "\<dots> = mset (file_hashes sha1 p1 c1)"
    by (simp add: file_hashes_snapshot)
  finally have m: "mset (file_hashes sha1 p2 c2) = mset (file_hashes sha1 p1 c1)" .
  have "map fst (file_hashes sha1 p1 c1) = map fst (snapshot_entries p1 (sort_key ?h1 c1))"
    by (simp add: file_hashes_snapshot comp_def)
  moreover have "mset (map fst (snapshot_entries p1 (sort_key ?h1 c1)))
                   = mset (map fst (snapshot_entries p1 c1))"
    by (simp only: mset_map mset_snapshot_entries_sort)
  ultimately have "distinct (map fst (file_hashes sha1 p1 c1))"
    using assms(2) by (metis mset_eq_imp_distinct_iff)
  from directory_sha1_permutation [OF m this] show ?thesis by simp
qed

lemma fetch_version_hash_snapshot:
  assumes "length (paginate b1 (i1 @ ''/'')) \<le> 1000"
    and "length (paginate b2 (i2 @ ''/'')) \<le> 1000"
    and "mset (snapshot_entries (i1 @ ''/'') (paginate b1 (i1 @ ''/'')))
           = mset (snapshot_entries (i2 @ ''/'') (paginate b2 (i2 @ ''/'')))"
    and "distinct (map fst (snapshot_entries (i1 @ ''/'') (paginate b1 (i1 @ ''/''))))"
  shows "fst (fetch_version_hash sha1 b1 i1) = fst (fetch_version_hash sha1 b2 i2)"
  using assms(1,2) directory_sha1_snapshot [OF assms(3,4)]
  by (simp add: fetch_version_hash_def list_objects_v2_def Let_def)

lemma crlf_to_lf_append:
  assumes "xs = [] \<or> last xs \<noteq> CHR 0x0D"
  shows "crlf_to_lf (xs @ ys) = crlf_to_lf xs @ crlf_to_lf ys"
  using assms
proof (induction xs rule: crlf_to_lf.induct)
  case 1
  then show ?case by simp
next
  case (2 c)
  then show ?case by (cases ys) auto
next
  case (3 c d cs)
  then show ?case by (auto split: if_splits)
qed

lemma file_hashes_entry:
  assumes "(key, body) \<in> set contents" and "\<not> endswith_slash key"
  shows "(drop (length prefix) key, file_sha1 sha1 body) \<in> set (file_hashes sha1 prefix contents)"
proof -
  have "(key, body) \<in> set (filter (\<lambda>obj. \<not> endswith_slash (fst obj))
          (sort_key (\<lambda>obj. listing_key prefix (fst obj)) contents))"
    using assms by simp
  then show ?thesis
    unfolding file_hashes_def by (force simp: image_iff)
qed

subsection \<open>Uploads\<close>

lemma map_of_store_put:
  "map_of (store_put k v b) k' = (if k' = k then Some v else map_of b k')"
  by (induction b) auto

lemma s3_store_other:
  assumes "k \<notin> set (map (\<lambda>f. object_key base (fst f)) files)"
  shows "map_of (s3_store b files base) k = map_of b k"
  using assms
  by (induction files arbitrary: b) (auto simp: s3_store_def map_of_store_put)

lemma s3_store_uploaded:
  assumes "(rel_path, content) \<in> set files"
    and "distinct (map (\<lambda>f. object_key base (fst f)) files)"
  shows "map_of (s3_store b files base) (object_key base rel_path) = Some content"
  using assms
proof (induction files arbitrary: b)
  case Nil
  then show ?case by simp
next
  case (Cons f files)
  have unfold: "s3_store b (f # files) base
                  = s3_store (store_put (object_key base (fst f)) (snd f) b) files base"
    by (simp add: s3_store_def case_prod_beta)
  show ?case
  proof (cases "(rel_path, content) = f")
    case True
    from Cons.prems(2) have "object_key base (fst f)
        \<notin> set (map (\<lambda>f. object_key base (fst f)) files)"
      by simp
    moreover from True have "fst f = rel_path" and "snd f = content" by auto
    ultimately have "object_key base rel_path
        \<notin> set (map (\<lambda>f. object_key base (fst f)) files)"
      by simp
    from s3_store_other [OF this]
    have "map_of (s3_store b (f # files) base) (object_key base rel_path)
            = map_of (store_put (object_key base (fst f)) (snd f) b) (object_key base rel_path)"
      unfolding unfold by simp
    also have "\<dots> = Some content"
      using \<open>fst f = rel_path\<close> \<open>snd f = content\<close> by (simp add: map_of_store_put)
    finally show ?thesis .
  next
    case False
    with Cons show ?thesis unfolding unfold by auto
  qed
qed

section \<open>The claims\<close>

subsection \<open>The three successful cases of a merge\<close>

text \<open>
  C1, as it is written, fails where the local pointer does not end in a digit. In
  \<open>st_named\<close> both heads are the commit \<open>first\<close>, their common ancestor is
  \<open>root_commit\<close> and the three snapshots are empty, so the three digests are equal
  whatever the digest function; \<open>merge dev master\<close> then raises the \<open>ValueError\<close> of
  \<open>int('t')\<close>: no merge commit is made and the head of \<open>master\<close> stays at \<open>first\<close>.
\<close>

theorem merge_noop_pointer_without_digit:
  "head_commit (db st_named) ''dev'' = Some ''first''
   \<and> head_commit (db st_named) ''master'' = Some ''first''
   \<and> lca (db st_named) ''first'' ''first'' = Some ''root_commit''
   \<and> config_file st_named = Some ''first''
   \<and> (\<forall>sha1.
         fst (fetch_version_hash sha1 (bucket st_named) ''root_commit'')
           = fst (fetch_version_hash sha1 (bucket st_named) ''first'')
         \<and> merge_branches sha1 ''dev'' ''master'' ''ann'' ''merge'' ''t2'' st_named
             = (Inl (Invalid_literal_for_int ''t''), st_named))"
  by (simp add: st_named_eq graph_defs store_defs op_defs Let_def)

text \<open>
  C1, amended. Let both heads and a common ancestor exist and let the local pointer be
  a non-empty id that ends in a decimal digit; \<open>mid\<close> is that id with the digit replaced
  by the digit plus one, and \<open>v\<close> the commit node of that id, the message and the
  timestamp. In each of the three cases the merge returns normally, \<open>v\<close> is in the graph
  (with \<open>PARENT\<close> relationships to a commit of the source head's id and to one of the
  target head's id when the user has a node), the local pointer is \<open>mid\<close>, and the head
  of the target branch resolves to \<open>mid\<close>. When only the source changed, the working
  directory is the checkout of the source head and the source branch has no Branch node
  and no head left. When only the target changed, the working directory is the checkout
  of the target head and the Branch node, the HEAD node and the head relationships of
  the source branch are as before. When nothing changed, the working directory is
  untouched.
\<close>

theorem merge_branches_cases:
  assumes "head_commit (db st) source_branch = Some hs"
    and "head_commit (db st) target_branch = Some ht"
    and "lca (db st) hs ht = Some a"
    and "config_file st = Some p" and "p \<noteq> []" and "int_of_digit (last p) = Some n"
    and "Da = fst (fetch_version_hash sha1 (bucket st) a)"
    and "Ds = fst (fetch_version_hash sha1 (bucket st) hs)"
    and "Dt = fst (fetch_version_hash sha1 (bucket st) ht)"
    and "mid = butlast p @ str_nat (n + 1)"
    and "v = Commit mid (Some message) (Some timestamp)"
    and "merge_branches sha1 source_branch target_branch user_id message timestamp st = (r, st')"
  shows "(Dt = Da \<and> Ds \<noteq> Da \<longrightarrow>
            r = Inr () \<and> cwd st' = revert_to_commit (bucket st) hs (cwd st)
            \<and> recorded (db st') v
            \<and> (match_nodes (db st) (\<lambda>w. w = User user_id) \<noteq> [] \<longrightarrow> has_parents (db st') v hs ht)
            \<and> config_file st' = Some mid
            \<and> \<not> branch_exists (db st') source_branch
            \<and> (branch_exists (db st) source_branch \<longrightarrow> head_commit (db st') source_branch = None)
            \<and> head_commit (db st') target_branch = Some mid)
       \<and> (Ds = Da \<and> Dt \<noteq> Da \<longrightarrow>
            r = Inr () \<and> cwd st' = revert_to_commit (bucket st) ht (cwd st)
            \<and> recorded (db st') v
            \<and> (match_nodes (db st) (\<lambda>w. w = User user_id) \<noteq> [] \<longrightarrow> has_parents (db st') v hs ht)
            \<and> config_file st' = Some mid
            \<and> match_nodes (db st') (\<lambda>w. w = Branch source_branch)
                = match_nodes (db st) (\<lambda>w. w = Branch source_branch)
            \<and> match_nodes (db st') (\<lambda>w. w = HEAD source_branch)
                = match_nodes (db st) (\<lambda>w. w = HEAD source_branch)
            \<and> filter (is_head_edge (db st') source_branch) (edges (db st'))
                = filter (is_head_edge (db st) source_branch) (edges (db st))
            \<and> head_commit (db st') target_branch = Some mid)
       \<and> (Da = Ds \<and> Ds = Dt \<longrightarrow>
            r = Inr () \<and> cwd st' = cwd st
            \<and> recorded (db st') v
            \<and> (match_nodes (db st) (\<lambda>w. w = User user_id) \<noteq> [] \<longrightarrow> has_parents (db st') v hs ht)
            \<and> config_file st' = Some mid
            \<and> match_nodes (db st') (\<lambda>w. w = Branch source_branch)
                = match_nodes (db st) (\<lambda>w. w = Branch source_branch)
            \<and> head_commit (db st') target_branch = Some mid)"
proof (intro conjI impI)
  note p = assms(4-6) and mid = assms(10) and v = assms(11) [unfolded assms(10)]
  {
    assume c: "Dt = Da \<and> Ds \<noteq> Da"
    let ?st = "st\<lparr>cwd := revert_to_commit (bucket st) hs (cwd st)\<rparr>"
    from c assms(7-9) have "hs \<noteq> ht" by auto
    with assms(1,2) have ne: "source_branch \<noteq> target_branch" by auto
    have r: "commit_merge source_branch target_branch hs ht user_id message timestamp True ?st
               = (r, st')"
      using assms c by (auto simp: merge_branches_def Let_def)
    have cfg: "config_file ?st = Some p" using assms(4) by simp
    have hs': "head_commit (db ?st) source_branch = Some hs" using assms(1) by simp
    have ht': "head_commit (db ?st) target_branch = Some ht" using assms(2) by simp
    note o = commit_merge_outcome [OF mid v cfg assms(5,6) hs' ht' ne r]
    show "r = Inr ()" using o(1) by simp
    show "cwd st' = revert_to_commit (bucket st) hs (cwd st)" using o(2) by simp
    show "recorded (db st') v" using o(5) by simp
    show "config_file st' = Some mid" using o(3) by simp
    show "\<not> branch_exists (db st') source_branch" using o(7) by simp
    show "head_commit (db st') target_branch = Some mid" using o(4) by simp
    show "has_parents (db st') v hs ht" if "match_nodes (db st) (\<lambda>w. w = User user_id) \<noteq> []"
      using o(6) that by simp
    show "head_commit (db st') source_branch = None" if "branch_exists (db st) source_branch"
      using o(8) that by simp
  }
  {
    assume c: "Ds = Da \<and> Dt \<noteq> Da"
    let ?st = "st\<lparr>cwd := revert_to_commit (bucket st) ht (cwd st)\<rparr>"
    from c assms(7-9) have "hs \<noteq> ht" by auto
    with assms(1,2) have ne: "source_branch \<noteq> target_branch" by auto
    have r: "commit_merge source_branch target_branch hs ht user_id message timestamp False ?st
               = (r, st')"
      using assms c by (auto simp: merge_branches_def Let_def)
    have cfg: "config_file ?st = Some p" using assms(4) by simp
    have hs': "head_commit (db ?st) source_branch = Some hs" using assms(1) by simp
    have ht': "head_commit (db ?st) target_branch = Some ht" using assms(2) by simp
    note o = commit_merge_outcome [OF mid v cfg assms(5,6) hs' ht' _ r]
    show "r = Inr ()" using o(1) by simp
    show "cwd st' = revert_to_commit (bucket st) ht (cwd st)" using o(2) by simp
    show "recorded (db st') v" using o(5) by simp
    show "config_file st' = Some mid" using o(3) by simp
    show "head_commit (db st') target_branch = Some mid" using o(4) by simp
    show "has_parents (db st') v hs ht" if "match_nodes (db st) (\<lambda>w. w = User user_id) \<noteq> []"
      using o(6) that by simp
    show "match_nodes (db st') (\<lambda>w. w = Branch source_branch)
            = match_nodes (db st) (\<lambda>w. w = Branch source_branch)"
      using o(9) by simp
    show "match_nodes (db st') (\<lambda>w. w = HEAD source_branch)
            = match_nodes (db st) (\<lambda>w. w = HEAD source_branch)"
      using o(10) by simp
    show "filter (is_head_edge (db st') source_branch) (edges (db st'))
            = filter (is_head_edge (db st) source_branch) (edges (db st))"
      using o(11) ne by simp
  }
  {
    assume c: "Da = Ds \<and> Ds = Dt"
    have r: "commit_merge source_branch target_branch hs ht user_id message timestamp False st
               = (r, st')"
      using assms c by (auto simp: merge_branches_def Let_def)
    note o = commit_merge_outcome [OF mid v assms(4,5,6) assms(1,2) _ r]
    show "r = Inr ()" using o(1) by simp
    show "cwd st' = cwd st" using o(2) by simp
    show "recorded (db st') v" using o(5) by simp
    show "config_file st' = Some mid" using o(3) by simp
    show "head_commit (db st') target_branch = Some mid" using o(4) by simp
    show "has_parents (db st') v hs ht" if "match_nodes (db st) (\<lambda>w. w = User user_id) \<noteq> []"
      using o(6) that by simp
    show "match_nodes (db st') (\<lambda>w. w = Branch source_branch)
            = match_nodes (db st) (\<lambda>w. w = Branch source_branch)"
      using o(9) by simp
  }
qed

theorem merge_branches_cases_witness:
  "(head_commit (db st_ahead) ''dev'' = Some ''c2''
    \<and> head_commit (db st_ahead) ''master'' = Some ''c1''
    \<and> lca (db st_ahead) ''c2'' ''c1'' = Some ''root_commit''
    \<and> config_file st_ahead = Some ''c2'' \<and> int_of_digit (last ''c2'') = Some 2
    \<and> fst (fetch_version_hash plain (bucket st_ahead) ''c1'')
        = fst (fetch_version_hash plain (bucket st_ahead) ''root_commit'')
    \<and> fst (fetch_version_hash plain (bucket st_ahead) ''c2'')
        \<noteq> fst (fetch_version_hash plain (bucket st_ahead) ''root_commit'')
    \<and> match_nodes (db st_ahead) (\<lambda>w. w = User ''ann'') \<noteq> []
    \<and> branch_exists (db st_ahead) ''dev''
    \<and> fst (merge_branches plain ''dev'' ''master'' ''ann'' ''merge'' ''t3'' st_ahead) = Inr ()
    \<and> cwd (snd (merge_branches plain ''dev'' ''master'' ''ann'' ''merge'' ''t3'' st_ahead))
        = [(''a.txt'', ''x'')]
    \<and> has_parents (db (snd (merge_branches plain ''dev'' ''master'' ''ann'' ''merge'' ''t3'' st_ahead)))
        (Commit ''c3'' (Some ''merge'') (Some ''t3'')) ''c2'' ''c1''
    \<and> \<not> branch_exists (db (snd (merge_branches plain ''dev'' ''master'' ''ann'' ''merge'' ''t3'' st_ahead)))
          ''dev''
    \<and> head_commit (db (snd (merge_branches plain ''dev'' ''master'' ''ann'' ''merge'' ''t3'' st_ahead)))
        ''dev'' = None
    \<and> head_commit (db (snd (merge_branches plain ''dev'' ''master'' ''ann'' ''merge'' ''t3'' st_ahead)))
        ''master'' = Some ''c3'')
   \<and> (head_commit (db st_ahead) ''master'' = Some ''c1''
    \<and> head_commit (db st_ahead) ''dev'' = Some ''c2''
    \<and> lca (db st_ahead) ''c1'' ''c2'' = Some ''root_commit''
    \<and> fst (merge_branches plain ''master'' ''dev'' ''ann'' ''merge'' ''t3'' st_ahead) = Inr ()
    \<and> cwd (snd (merge_branches plain ''master'' ''dev'' ''ann'' ''merge'' ''t3'' st_ahead))
        = [(''a.txt'', ''x'')]
    \<and> has_parents (db (snd (merge_branches plain ''master'' ''dev'' ''ann'' ''merge'' ''t3'' st_ahead)))
        (Commit ''c3'' (Some ''merge'') (Some ''t3'')) ''c1'' ''c2''
    \<and> match_nodes (db (snd (merge_branches plain ''master'' ''dev'' ''ann'' ''merge'' ''t3'' st_ahead)))
        (\<lambda>w. w = Branch ''master'') = [0]
    \<and> head_commit (db (snd (merge_branches plain ''master'' ''dev'' ''ann'' ''merge'' ''t3'' st_ahead)))
        ''dev'' = Some ''c3'')
   \<and> (head_commit (db st_branched) ''dev'' = Some ''c1''
    \<and> head_commit (db st_branched) ''master'' = Some ''c1''
    \<and> lca (db st_branched) ''c1'' ''c1'' = Some ''root_commit''
    \<and> config_file st_branched = Some ''c1'' \<and> int_of_digit (last ''c1'') = Some 1
    \<and> fst (fetch_version_hash plain (bucket st_branched) ''root_commit'')
        = fst (fetch_version_hash plain (bucket st_branched) ''c1'')
    \<and> fst (merge_branches plain ''dev'' ''master'' ''ann'' ''merge'' ''t2'' st_branched) = Inr ()
    \<and> cwd (snd (merge_branches plain ''dev'' ''master'' ''ann'' ''merge'' ''t2'' st_branched))
        = cwd st_branched
    \<and> recorded (db (snd (merge_branches plain ''dev'' ''master'' ''ann'' ''merge'' ''t2'' st_branched)))
        (Commit ''c2'' (Some ''merge'') (Some ''t2''))
    \<and> head_commit (db (snd (merge_branches plain ''dev'' ''master'' ''ann'' ''merge'' ''t2'' st_branched)))
        ''master'' = Some ''c2'')"
proof -
  have heads: "head_commit (db st_ahead) ''dev'' = Some ''c2''"
    "head_commit (db st_ahead) ''master'' = Some ''c1''"
    "head_commit (db st_branched) ''dev'' = Some ''c1''"
    "head_commit (db st_branched) ''master'' = Some ''c1''"
    by (simp_all add: st_ahead_eq st_branched_eq graph_defs)
  have lcas: "lca (db st_ahead) ''c2'' ''c1'' = Some ''root_commit''"
    "lca (db st_ahead) ''c1'' ''c2'' = Some ''root_commit''"
    "lca (db st_branched) ''c1'' ''c1'' = Some ''root_commit''"
    by (simp_all add: st_ahead_eq st_branched_eq graph_defs lca_def lca_of_def ancestors_for_def
        ancestor_rows_def distance_in_def)
  have ptr: "config_file st_ahead = Some ''c2''" "''c2'' \<noteq> []" "int_of_digit (last ''c2'') = Some 2"
    "config_file st_branched = Some ''c1''" "''c1'' \<noteq> []" "int_of_digit (last ''c1'') = Some 1"
    by (simp_all add: st_ahead_eq st_branched_eq int_of_digit_def)
  have dg: "fst (fetch_version_hash plain (bucket st_ahead) ''c1'')
              = fst (fetch_version_hash plain (bucket st_ahead) ''root_commit'')"
    "fst (fetch_version_hash plain (bucket st_ahead) ''c2'')
       \<noteq> fst (fetch_version_hash plain (bucket st_ahead) ''root_commit'')"
    "fst (fetch_version_hash plain (bucket st_branched) ''root_commit'')
       = fst (fetch_version_hash plain (bucket st_branched) ''c1'')"
    by (simp_all add: st_ahead_eq st_branched_eq store_defs plain_def)
  have misc: "match_nodes (db st_ahead) (\<lambda>w. w = User ''ann'') \<noteq> []"
    "branch_exists (db st_ahead) ''dev''"
    "match_nodes (db st_ahead) (\<lambda>w. w = Branch ''master'') = [0]"
    "revert_to_commit (bucket st_ahead) ''c2'' (cwd st_ahead) = [(''a.txt'', ''x'')]"
    "butlast ''c2'' @ str_nat (2 + 1) = ''c3''" "butlast ''c1'' @ str_nat (1 + 1) = ''c2''"
    by (simp_all add: st_ahead_eq graph_defs store_defs)
  note t1 = merge_branches_cases [of _ _ _ _ _ _ _ _ _ plain _ _ _ _ "''merge''" "''t3''" "''ann''",
      OF heads(1) heads(2) lcas(1) ptr(1-3) refl refl refl refl refl prod.collapse [symmetric]]
  note t2 = merge_branches_cases [of _ _ _ _ _ _ _ _ _ plain _ _ _ _ "''merge''" "''t3''" "''ann''",
      OF heads(2) heads(1) lcas(2) ptr(1-3) refl refl refl refl refl prod.collapse [symmetric]]
  note t3 = merge_branches_cases [of _ _ _ _ _ _ _ _ _ plain _ _ _ _ "''merge''" "''t2''" "''ann''",
      OF heads(3) heads(4) lcas(3) ptr(4-6) refl refl refl refl refl prod.collapse [symmetric]]
  have w1: "fst (merge_branches plain ''dev'' ''master'' ''ann'' ''merge'' ''t3'' st_ahead) = Inr ()
    \<and> cwd (snd (merge_branches plain ''dev'' ''master'' ''ann'' ''merge'' ''t3'' st_ahead))
        = [(''a.txt'', ''x'')]
    \<and> has_parents (db (snd (merge_branches plain ''dev'' ''master'' ''ann'' ''merge'' ''t3'' st_ahead)))
        (Commit ''c3'' (Some ''merge'') (Some ''t3'')) ''c2'' ''c1''
    \<and> \<not> branch_exists (db (snd (merge_branches plain ''dev'' ''master'' ''ann'' ''merge'' ''t3'' st_ahead)))
          ''dev''
    \<and> head_commit (db (snd (merge_branches plain ''dev'' ''master'' ''ann'' ''merge'' ''t3'' st_ahead)))
        ''dev'' = None
    \<and> head_commit (db (snd (merge_branches plain ''dev'' ''master'' ''ann'' ''merge'' ''t3'' st_ahead)))
        ''master'' = Some ''c3''"
    using t1 dg(1,2) misc by simp
  have w2: "fst (merge_branches plain ''master'' ''dev'' ''ann'' ''merge'' ''t3'' st_ahead) = Inr ()
    \<and> cwd (snd (merge_branches plain ''master'' ''dev'' ''ann'' ''merge'' ''t3'' st_ahead))
        = [(''a.txt'', ''x'')]
    \<and> has_parents (db (snd (merge_branches plain ''master'' ''dev'' ''ann'' ''merge'' ''t3'' st_ahead)))
        (Commit ''c3'' (Some ''merge'') (Some ''t3'')) ''c1'' ''c2''
    \<and> match_nodes (db (snd (merge_branches plain ''master'' ''dev'' ''ann'' ''merge'' ''t3'' st_ahead)))
        (\<lambda>w. w = Branch ''master'') = [0]
    \<and> head_commit (db (snd (merge_branches plain ''master'' ''dev'' ''ann'' ''merge'' ''t3'' st_ahead)))
        ''dev'' = Some ''c3''"
    using t2 dg(1,2) misc by simp
  have w3: "fst (merge_branches plain ''dev'' ''master'' ''ann'' ''merge'' ''t2'' st_branched) = Inr ()
    \<and> cwd (snd (merge_branches plain ''dev'' ''master'' ''ann'' ''merge'' ''t2'' st_branched))
        = cwd st_branched
    \<and> recorded (db (snd (merge_branches plain ''dev'' ''master'' ''ann'' ''merge'' ''t2'' st_branched)))
        (Commit ''c2'' (Some ''merge'') (Some ''t2''))
    \<and> head_commit (db (snd (merge_branches plain ''dev'' ''master'' ''ann'' ''merge'' ''t2'' st_branched)))
        ''master'' = Some ''c2''"
    using t3 dg(3) misc by simp
  show ?thesis
    using heads lcas ptr dg misc w1 w2 w3 by simp
qed

subsection \<open>Distances to ancestors\<close>

lemma merge_master_into_dev:
  "merge_branches sha1 ''master'' ''dev'' ''ann'' ''merge'' ''t3'' st_linear =
     (Inr (),
      \<lparr>db = \<lparr>nodes = [Some (Branch ''master''), Some (Commit ''root_commit'' None None),
                       Some (HEAD ''master''), Some (Commit ''c1'' (Some ''first'') (Some ''t1'')),
                       Some (User ''ann''), Some (Branch ''dev''), Some (HEAD ''dev''),
                       Some (Commit ''c2'' (Some ''second'') (Some ''t2'')),
                       Some (Commit ''c3'' (Some ''merge'') (Some ''t3''))],
              edges = [(0, BASE, 1), (3, MADE_BY, 4), (3, PARENT, 1), (2, POINTS_TO, 3),
                       (5, BASE, 3), (7, MADE_BY, 4), (7, PARENT, 3), (8, PARENT, 3),
                       (8, PARENT, 7), (8, MADE_BY, 4), (6, POINTS_TO, 8)]\<rparr>,
       config_file = Some ''c3'', current_branch = ''dev'', bucket = [], cwd = []\<rparr>)"
  by (simp add: st_linear_eq graph_defs store_defs op_defs Let_def)

lemma merge_dev_into_master:
  "merge_branches sha1 ''dev'' ''master'' ''ann'' ''merge'' ''t3'' st_linear =
     (Inr (),
      \<lparr>db = \<lparr>nodes = [Some (Branch ''master''), Some (Commit ''root_commit'' None None),
                       Some (HEAD ''master''), Some (Commit ''c1'' (Some ''first'') (Some ''t1'')),
                       Some (User ''ann''), Some (Branch ''dev''), Some (HEAD ''dev''),
                       Some (Commit ''c2'' (Some ''second'') (Some ''t2'')),
                       Some (Commit ''c3'' (Some ''merge'') (Some ''t3''))],
              edges = [(0, BASE, 1), (3, MADE_BY, 4), (3, PARENT, 1), (5, BASE, 3),
                       (7, MADE_BY, 4), (7, PARENT, 3), (6, POINTS_TO, 7), (8, PARENT, 7),
                       (8, PARENT, 3), (8, MADE_BY, 4), (2, POINTS_TO, 8)]\<rparr>,
       config_file = Some ''c3'', current_branch = ''dev'', bucket = [], cwd = []\<rparr>)"
  by (simp add: st_linear_eq graph_defs store_defs op_defs Let_def)

lemma st_forked_eq:
  "st_forked =
     \<lparr>db = \<lparr>nodes = [Some (Branch ''master''), Some (Commit ''root_commit'' None None),
                      Some (HEAD ''master''), Some (Commit ''x1'' (Some ''m'') (Some ''t1'')),
                      Some (User ''ann''), Some (Branch ''b''), Some (HEAD ''b''),
                      Some (Commit ''p1'' (Some ''m'') (Some ''t2'')), Some (Branch ''y''),
                      Some (HEAD ''y''), Some (Commit ''y1'' (Some ''m'') (Some ''t3''))],
             edges = [(0, BASE, 1), (3, MADE_BY, 4), (3, PARENT, 1), (2, POINTS_TO, 3),
                      (5, BASE, 3), (7, MADE_BY, 4), (7, PARENT, 3), (6, POINTS_TO, 7),
                      (8, BASE, 1), (10, MADE_BY, 4), (10, PARENT, 1), (9, POINTS_TO, 10)]\<rparr>,
      config_file = Some ''y1'', current_branch = ''y'', bucket = [], cwd = []\<rparr>"
  by (simp add: st_forked_def st_init_eq graph_defs store_defs op_defs Let_def)

lemma merge_y_into_b:
  "snd (merge_branches sha1 ''y'' ''b'' ''ann'' ''m'' ''t4'' st_forked) =
     \<lparr>db = \<lparr>nodes = [Some (Branch ''master''), Some (Commit ''root_commit'' None None),
                      Some (HEAD ''master''), Some (Commit ''x1'' (Some ''m'') (Some ''t1'')),
                      Some (User ''ann''), Some (Branch ''b''), Some (HEAD ''b''),
                      Some (Commit ''p1'' (Some ''m'') (Some ''t2'')), Some (Branch ''y''),
                      Some (HEAD ''y''), Some (Commit ''y1'' (Some ''m'') (Some ''t3'')),
                      Some (Commit ''y2'' (Some ''m'') (Some ''t4''))],
             edges = [(0, BASE, 1), (3, MADE_BY, 4), (3, PARENT, 1), (2, POINTS_TO, 3),
                      (5, BASE, 3), (7, MADE_BY, 4), (7, PARENT, 3),
                      (8, BASE, 1), (10, MADE_BY, 4), (10, PARENT, 1), (9, POINTS_TO, 10),
                      (11, PARENT, 10), (11, PARENT, 7), (11, MADE_BY, 4), (6, POINTS_TO, 11)]\<rparr>,
      config_file = Some ''y2'', current_branch = ''y'', bucket = [], cwd = []\<rparr>"
  by (simp add: st_forked_eq graph_defs store_defs op_defs Let_def)

lemma merge_master_into_b:
  "snd (merge_branches sha1 ''master'' ''b'' ''ann'' ''m'' ''t5''
          (snd (merge_branches sha1 ''y'' ''b'' ''ann'' ''m'' ''t4'' st_forked))) =
     \<lparr>db = \<lparr>nodes = [Some (Branch ''master''), Some (Commit ''root_commit'' None None),
                      Some (HEAD ''master''), Some (Commit ''x1'' (Some ''m'') (Some ''t1'')),
                      Some (User ''ann''), Some (Branch ''b''), Some (HEAD ''b''),
                      Some (Commit ''p1'' (Some ''m'') (Some ''t2'')), Some (Branch ''y''),
                      Some (HEAD ''y''), Some (Commit ''y1'' (Some ''m'') (Some ''t3'')),
                      Some (Commit ''y2'' (Some ''m'') (Some ''t4'')),
                      Some (Commit ''y3'' (Some ''m'') (Some ''t5''))],
             edges = [(0, BASE, 1), (3, MADE_BY, 4), (3, PARENT, 1), (2, POINTS_TO, 3),
                      (5, BASE, 3), (7, MADE_BY, 4), (7, PARENT, 3),
                      (8, BASE, 1), (10, MADE_BY, 4), (10, PARENT, 1), (9, POINTS_TO, 10),
                      (11, PARENT, 10), (11, PARENT, 7), (11, MADE_BY, 4),
                      (12, PARENT, 3), (12, PARENT, 11), (12, MADE_BY, 4), (6, POINTS_TO, 12)]\<rparr>,
      config_file = Some ''y3'', current_branch = ''y'', bucket = [], cwd = []\<rparr>"
  unfolding merge_y_into_b by (simp add: graph_defs store_defs op_defs Let_def)

lemma st_crossed_eq:
  "st_crossed sha1 =
     \<lparr>db = \<lparr>nodes = [Some (Branch ''master''), Some (Commit ''root_commit'' None None),
                      Some (HEAD ''master''), Some (Commit ''x1'' (Some ''m'') (Some ''t1'')),
                      Some (User ''ann''), Some (Branch ''b''), Some (HEAD ''b''),
                      Some (Commit ''p1'' (Some ''m'') (Some ''t2'')), Some (Branch ''y''),
                      Some (HEAD ''y''), Some (Commit ''y1'' (Some ''m'') (Some ''t3'')),
                      Some (Commit ''y2'' (Some ''m'') (Some ''t4'')),
                      Some (Commit ''y3'' (Some ''m'') (Some ''t5'')),
                      Some (Commit ''y4'' (Some ''m'') (Some ''t6''))],
             edges = [(0, BASE, 1), (3, MADE_BY, 4), (3, PARENT, 1), (5, BASE, 3),
                      (7, MADE_BY, 4), (7, PARENT, 3), (8, BASE, 1), (10, MADE_BY, 4),
                      (10, PARENT, 1), (9, POINTS_TO, 10), (11, PARENT, 10), (11, PARENT, 7),
                      (11, MADE_BY, 4), (12, PARENT, 3), (12, PARENT, 11), (12, MADE_BY, 4),
                      (6, POINTS_TO, 12), (13, PARENT, 10), (13, PARENT, 3), (13, MADE_BY, 4),
                      (2, POINTS_TO, 13)]\<rparr>,
      config_file = Some ''y4'', current_branch = ''y'', bucket = [], cwd = []\<rparr>"
  unfolding st_crossed_def merge_master_into_b by (simp add: graph_defs store_defs op_defs Let_def)

text \<open>
  C2. After \<open>merge master dev\<close> in \<open>st_linear\<close> the merge commit \<open>c3\<close> has the parents \<open>c1\<close>
  and \<open>c2\<close>, and \<open>c1\<close> is also the parent of \<open>c2\<close>. The query returns a row of distance 1
  for \<open>c1\<close> and later a row of distance 2, and the dict keeps the later one: \<open>c1\<close> is
  recorded at distance 2 and \<open>root_commit\<close> at distance 3, not at their least distances 1
  and 2. When the relationships of a node are tried newest first instead, the history
  after \<open>merge dev master\<close> gives the same dict. In \<open>st_crossed\<close> the heads \<open>y3\<close> and \<open>y4\<close>
  have the common ancestors \<open>x1\<close>, \<open>y1\<close> and \<open>root_commit\<close>, whose least distances add up
  to 2, 3 and 4; the recorded ones add up to 4, 3 and 6, and \<open>y1\<close> is taken for the
  common ancestor where the least distances give \<open>x1\<close>.
\<close>

theorem ancestors_for_keeps_last_distance:
  "ancestor_rows (db (snd (merge_branches sha1 ''master'' ''dev'' ''ann'' ''merge'' ''t3'' st_linear)))
     ''c3''
     = [(''c1'', 1), (''root_commit'', 2), (''c2'', 1), (''c1'', 2), (''root_commit'', 3)]
   \<and> ancestors_for (db (snd (merge_branches sha1 ''master'' ''dev'' ''ann'' ''merge'' ''t3'' st_linear)))
       ''c3''
     = [(''c1'', 2), (''root_commit'', 3), (''c2'', 1)]
   \<and> spec_ancestors_with_distance
       (db (snd (merge_branches sha1 ''master'' ''dev'' ''ann'' ''merge'' ''t3'' st_linear))) ''c3''
     = [(''c1'', 1), (''root_commit'', 2), (''c2'', 1)]
   \<and> ancestors_for
       ((db (snd (merge_branches sha1 ''dev'' ''master'' ''ann'' ''merge'' ''t3'' st_linear)))
          \<lparr>edges := rev (edges (db (snd (merge_branches sha1 ''dev'' ''master'' ''ann'' ''merge''
                                             ''t3'' st_linear))))\<rparr>)
       ''c3''
     = [(''c1'', 2), (''root_commit'', 3), (''c2'', 1)]
   \<and> head_commit (db (st_crossed sha1)) ''b'' = Some ''y3''
   \<and> head_commit (db (st_crossed sha1)) ''master'' = Some ''y4''
   \<and> ancestors_for (db (st_crossed sha1)) ''y3''
       = [(''x1'', 3), (''root_commit'', 4), (''y2'', 1), (''y1'', 2), (''p1'', 2)]
   \<and> spec_ancestors_with_distance (db (st_crossed sha1)) ''y3''
       = [(''x1'', 1), (''root_commit'', 2), (''y2'', 1), (''y1'', 2), (''p1'', 2)]
   \<and> ancestors_for (db (st_crossed sha1)) ''y4''
       = [(''y1'', 1), (''root_commit'', 2), (''x1'', 1)]
   \<and> spec_ancestors_with_distance (db (st_crossed sha1)) ''y4''
       = [(''y1'', 1), (''root_commit'', 2), (''x1'', 1)]
   \<and> lca (db (st_crossed sha1)) ''y3'' ''y4'' = Some ''y1''
   \<and> lca_of (spec_ancestors_with_distance (db (st_crossed sha1)) ''y3'')
        (spec_ancestors_with_distance (db (st_crossed sha1)) ''y4'') = Some ''x1''"
proof -
  have r3: "ancestor_rows (db (st_crossed sha1)) ''y3''
              = [(''x1'', 1), (''root_commit'', 2), (''y2'', 1), (''y1'', 2), (''root_commit'', 3),
                 (''p1'', 2), (''x1'', 3), (''root_commit'', 4)]"
    by (simp add: st_crossed_eq ancestor_rows_def graph_defs)
  have r4: "ancestor_rows (db (st_crossed sha1)) ''y4''
              = [(''y1'', 1), (''root_commit'', 2), (''x1'', 1), (''root_commit'', 2)]"
    by (simp add: st_crossed_eq ancestor_rows_def graph_defs)
  have a3: "ancestors_for (db (st_crossed sha1)) ''y3''
       = [(''x1'', 3), (''root_commit'', 4), (''y2'', 1), (''y1'', 2), (''p1'', 2)]"
    by (simp add: ancestors_for_def r3)
  have a4: "ancestors_for (db (st_crossed sha1)) ''y4''
       = [(''y1'', 1), (''root_commit'', 2), (''x1'', 1)]"
    by (simp add: ancestors_for_def r4)
  have s3: "spec_ancestors_with_distance (db (st_crossed sha1)) ''y3''
       = [(''x1'', 1), (''root_commit'', 2), (''y2'', 1), (''y1'', 2), (''p1'', 2)]"
    by (simp add: spec_ancestors_with_distance_def r3)
  have s4: "spec_ancestors_with_distance (db (st_crossed sha1)) ''y4''
       = [(''y1'', 1), (''root_commit'', 2), (''x1'', 1)]"
    by (simp add: spec_ancestors_with_distance_def r4)
  have l: "lca (db (st_crossed sha1)) ''y3'' ''y4'' = Some ''y1''"
    by (simp add: lca_def a3 a4 lca_of_def distance_in_def)
  have sl: "lca_of (spec_ancestors_with_distance (db (st_crossed sha1)) ''y3'')
        (spec_ancestors_with_distance (db (st_crossed sha1)) ''y4'') = Some ''x1''"
    by (simp add: s3 s4 lca_of_def distance_in_def)
  have h: "head_commit (db (st_crossed sha1)) ''b'' = Some ''y3''"
    "head_commit (db (st_crossed sha1)) ''master'' = Some ''y4''"
    by (simp_all add: st_crossed_eq graph_defs)
  have first: "ancestor_rows (db (snd (merge_branches sha1 ''master'' ''dev'' ''ann'' ''merge'' ''t3'' st_linear)))
     ''c3''
     = [(''c1'', 1), (''root_commit'', 2), (''c2'', 1), (''c1'', 2), (''root_commit'', 3)]"
    by (simp add: merge_master_into_dev ancestor_rows_def graph_defs)
  have rest: "ancestors_for (db (snd (merge_branches sha1 ''master'' ''dev'' ''ann'' ''merge'' ''t3'' st_linear)))
       ''c3''
     = [(''c1'', 2), (''root_commit'', 3), (''c2'', 1)]"
    "spec_ancestors_with_distance
       (db (snd (merge_branches sha1 ''master'' ''dev'' ''ann'' ''merge'' ''t3'' st_linear))) ''c3''
     = [(''c1'', 1), (''root_commit'', 2), (''c2'', 1)]"
    by (simp_all add: ancestors_for_def spec_ancestors_with_distance_def first)
  have mirrored: "ancestors_for
       ((db (snd (merge_branches sha1 ''dev'' ''master'' ''ann'' ''merge'' ''t3'' st_linear)))
          \<lparr>edges := rev (edges (db (snd (merge_branches sha1 ''dev'' ''master'' ''ann'' ''merge''
                                             ''t3'' st_linear))))\<rparr>)
       ''c3''
     = [(''c1'', 2), (''root_commit'', 3), (''c2'', 1)]"
    by (simp add: merge_dev_into_master ancestors_for_def ancestor_rows_def graph_defs)
  show ?thesis
    by (intro conjI first rest mirrored h a3 s3 a4 s4 l sl)
qed

subsection \<open>Conflicting versions\<close>

text \<open>
  C3. When the directory digests of both heads differ from the digest of the common
  ancestor, \<open>merge_branches\<close> raises the conflicting-versions error and the state it leaves
  is the state it found: nothing is checked out, no commit is made, and no head and no
  local pointer has moved.
\<close>

theorem merge_conflict_untouched:
  assumes "head_commit (db st) source_branch = Some hs"
    and "head_commit (db st) target_branch = Some ht"
    and "lca (db st) hs ht = Some a"
    and "fst (fetch_version_hash sha1 (bucket st) hs) \<noteq> fst (fetch_version_hash sha1 (bucket st) a)"
    and "fst (fetch_version_hash sha1 (bucket st) ht) \<noteq> fst (fetch_version_hash sha1 (bucket st) a)"
  shows "merge_branches sha1 source_branch target_branch user_id message timestamp st =
           (Inl Conflicting_versions, st)"
  using assms by (auto simp: merge_branches_def Let_def)

theorem merge_conflict_untouched_witness:
  "head_commit (db st_diverged) ''dev'' = Some ''c2''
   \<and> head_commit (db st_diverged) ''master'' = Some ''c1''
   \<and> lca (db st_diverged) ''c2'' ''c1'' = Some ''root_commit''
   \<and> fst (fetch_version_hash plain (bucket st_diverged) ''c2'')
       \<noteq> fst (fetch_version_hash plain (bucket st_diverged) ''root_commit'')
   \<and> fst (fetch_version_hash plain (bucket st_diverged) ''c1'')
       \<noteq> fst (fetch_version_hash plain (bucket st_diverged) ''root_commit'')
   \<and> merge_branches plain ''dev'' ''master'' ''ann'' ''merge'' ''t3'' st_diverged =
       (Inl Conflicting_versions, st_diverged)"
proof -
  have hs: "head_commit (db st_diverged) ''dev'' = Some ''c2''"
    by (simp add: st_diverged_eq graph_defs)
  have ht: "head_commit (db st_diverged) ''master'' = Some ''c1''"
    by (simp add: st_diverged_eq graph_defs)
  have a: "lca (db st_diverged) ''c2'' ''c1'' = Some ''root_commit''"
    by (simp add: st_diverged_eq graph_defs lca_def lca_of_def ancestors_for_def ancestor_rows_def
        distance_in_def)
  have ds: "fst (fetch_version_hash plain (bucket st_diverged) ''c2'')
              \<noteq> fst (fetch_version_hash plain (bucket st_diverged) ''root_commit'')"
    by (simp add: st_diverged_eq store_defs plain_def)
  have dt: "fst (fetch_version_hash plain (bucket st_diverged) ''c1'')
              \<noteq> fst (fetch_version_hash plain (bucket st_diverged) ''root_commit'')"
    by (simp add: st_diverged_eq store_defs plain_def)
  show ?thesis
    using hs ht a ds dt merge_conflict_untouched [OF hs ht a ds dt] by simp
qed

subsection \<open>The relationships of a merge commit\<close>

text \<open>
  C4. \<open>merge_commit\<close> matches the user and does not create it: for a user that has no
  node yet the statement has no row, so the merge commit gets no \<open>PARENT\<close> and no
  \<open>MADE_BY\<close> relationship and no User node is made. \<open>create_commit\<close> in the same state
  makes the node.
\<close>

theorem merge_commit_new_user_no_parents:
  "merge_commit ''c2'' ''c1'' ''bob'' ''merge'' ''t3'' st_ahead =
     (Inr ''c3'',
      st_ahead\<lparr>db := (db st_ahead)
                   \<lparr>nodes := nodes (db st_ahead) @ [Some (Commit ''c3'' (Some ''merge'') (Some ''t3''))]\<rparr>,
               config_file := Some ''c3''\<rparr>)
   \<and> match_nodes (db (snd (merge_commit ''c2'' ''c1'' ''bob'' ''merge'' ''t3'' st_ahead)))
        (\<lambda>v. v = User ''bob'') = []
   \<and> filter (\<lambda>e. fst e = 8) (edges (db (snd (merge_commit ''c2'' ''c1'' ''bob'' ''merge'' ''t3'' st_ahead))))
        = []
   \<and> filter (\<lambda>e. fst e = 8) (edges (db (snd (merge_commit ''c2'' ''c1'' ''ann'' ''merge'' ''t3'' st_ahead))))
        = [(8, PARENT, 7), (8, PARENT, 3), (8, MADE_BY, 4)]
   \<and> match_nodes (db (create_commit ''c3'' ''third'' ''bob'' [] ''t3'' ''dev'' st_ahead))
        (\<lambda>v. v = User ''bob'') = [9]"
  by (simp add: st_ahead_eq graph_defs op_defs store_defs Let_def)

subsection \<open>One head for each branch\<close>

text \<open>
  C5. \<open>create_branch\<close> for a branch that exists reuses the HEAD node and adds a
  \<open>POINTS_TO\<close> relationship without deleting the old one: after
  \<open>branch dev --commit_id c1\<close> in \<open>st_ahead\<close> the head of \<open>dev\<close> points at \<open>c2\<close> and at \<open>c1\<close>.
\<close>

theorem create_branch_again_two_heads:
  "head_rows (db st_ahead) ''dev'' = [''c2'']
   \<and> head_rows (create_branch ''dev'' ''c1'' (db st_ahead)) ''dev'' = [''c2'', ''c1'']
   \<and> filter (is_head_edge (create_branch ''dev'' ''c1'' (db st_ahead)) ''dev'')
        (edges (create_branch ''dev'' ''c1'' (db st_ahead)))
      = [(6, POINTS_TO, 7), (6, POINTS_TO, 3)]
   \<and> match_nodes (create_branch ''dev'' ''c1'' (db st_ahead)) (\<lambda>v. v = HEAD ''dev'') = [6]"
  by (simp add: st_ahead_eq graph_defs Let_def)

subsection \<open>The directory digest\<close>

text \<open>
  C6. The directory digest is the digest of the entries \<open>path:digest\<close> concatenated in
  ascending order of their paths, so it does not depend on the order in which the
  entries are listed: two lists of entries that are permutations of each other, with one
  entry for each path, have the same digest, and so do two listings that show the same
  snapshot, whatever their order and their commit prefix; so \<open>fetch_version_hash\<close> gives
  two commits whose snapshots are equal the same directory digest (one call lists up to
  1000 objects).
\<close>

theorem directory_sha1_order_insensitive:
  "(mset fhs' = mset fhs \<and> distinct (map fst fhs)
      \<longrightarrow> directory_sha1 sha1 fhs' = directory_sha1 sha1 fhs)
   \<and> (mset (snapshot_entries p1 c1) = mset (snapshot_entries p2 c2)
        \<and> distinct (map fst (snapshot_entries p1 c1))
      \<longrightarrow> directory_sha1 sha1 (file_hashes sha1 p1 c1)
            = directory_sha1 sha1 (file_hashes sha1 p2 c2))
   \<and> (length (paginate b1 (i1 @ ''/'')) \<le> 1000 \<and> length (paginate b2 (i2 @ ''/'')) \<le> 1000
        \<and> mset (snapshot_entries (i1 @ ''/'') (paginate b1 (i1 @ ''/'')))
            = mset (snapshot_entries (i2 @ ''/'') (paginate b2 (i2 @ ''/'')))
        \<and> distinct (map fst (snapshot_entries (i1 @ ''/'') (paginate b1 (i1 @ ''/''))))
      \<longrightarrow> fst (fetch_version_hash sha1 b1 i1) = fst (fetch_version_hash sha1 b2 i2))
   \<and> directory_sha1 sha1 fhs
       = sha1 (concat (map (\<lambda>ph. fst ph @ '':'' @ snd ph) (sort_key fst fhs)))
   \<and> sorted (map fst (sort_key fst fhs))
   \<and> mset (sort_key fst fhs) = mset fhs"
  using directory_sha1_permutation directory_sha1_snapshot fetch_version_hash_snapshot
  by (auto simp: directory_sha1_def)

theorem directory_sha1_order_insensitive_witness:
  "mset [(''b.txt'', ''2''), (''a.txt'', ''1'')] = mset [(''a.txt'', ''1''), (''b.txt'', ''2'')]
   \<and> distinct (map fst [(''a.txt'', ''1''), (''b.txt'', ''2'')])
   \<and> directory_sha1 plain [(''b.txt'', ''2''), (''a.txt'', ''1'')] = ''a.txt:1b.txt:2''
   \<and> directory_sha1 plain [(''a.txt'', ''1''), (''b.txt'', ''2'')] = ''a.txt:1b.txt:2''
   \<and> mset (snapshot_entries ''c1/'' [(''c1/b.txt'', ''y''), (''c1/d/'', ''''), (''c1/a.txt'', ''x'')])
       = mset (snapshot_entries ''c2/'' [(''c2/a.txt'', ''x''), (''c2/b.txt'', ''y'')])
   \<and> distinct (map fst
        (snapshot_entries ''c1/'' [(''c1/b.txt'', ''y''), (''c1/d/'', ''''), (''c1/a.txt'', ''x'')]))
   \<and> directory_sha1 plain
        (file_hashes plain ''c1/'' [(''c1/b.txt'', ''y''), (''c1/d/'', ''''), (''c1/a.txt'', ''x'')])
       = directory_sha1 plain
           (file_hashes plain ''c2/'' [(''c2/a.txt'', ''x''), (''c2/b.txt'', ''y'')])
   \<and> length (paginate [(''c2/a.txt'', ''x''), (''c1/b.txt'', ''y''), (''c2/b.txt'', ''y''),
                         (''c1/a.txt'', ''x'')] (''c1'' @ ''/'')) \<le> 1000
   \<and> fst (fetch_version_hash plain
             [(''c2/a.txt'', ''x''), (''c1/b.txt'', ''y''), (''c2/b.txt'', ''y''), (''c1/a.txt'', ''x'')]
             ''c1'')
       = fst (fetch_version_hash plain
             [(''c2/a.txt'', ''x''), (''c1/b.txt'', ''y''), (''c2/b.txt'', ''y''), (''c1/a.txt'', ''x'')]
             ''c2'')"
proof -
  let ?b = "[(''c2/a.txt'', ''x''), (''c1/b.txt'', ''y''), (''c2/b.txt'', ''y''), (''c1/a.txt'', ''x'')]"
  have a: "mset [(''b.txt'', ''2''), (''a.txt'', ''1'')] = mset [(''a.txt'', ''1''), (''b.txt'', ''2'')]"
    by simp
  have b: "distinct (map fst [(''a.txt'', ''1''), (''b.txt'', ''2'')])" by simp
  have c: "directory_sha1 plain [(''a.txt'', ''1''), (''b.txt'', ''2'')] = ''a.txt:1b.txt:2''"
    by (simp add: directory_sha1_def plain_def)
  have d: "mset (snapshot_entries ''c1/'' [(''c1/b.txt'', ''y''), (''c1/d/'', ''''), (''c1/a.txt'', ''x'')])
       = mset (snapshot_entries ''c2/'' [(''c2/a.txt'', ''x''), (''c2/b.txt'', ''y'')])"
    by (simp add: snapshot_entries_def endswith_slash_def)
  have e: "distinct (map fst
        (snapshot_entries ''c1/'' [(''c1/b.txt'', ''y''), (''c1/d/'', ''''), (''c1/a.txt'', ''x'')]))"
    by (simp add: snapshot_entries_def endswith_slash_def)
  have p1: "paginate ?b (''c1'' @ ''/'') = [(''c1/a.txt'', ''x''), (''c1/b.txt'', ''y'')]"
    and p2: "paginate ?b (''c2'' @ ''/'') = [(''c2/a.txt'', ''x''), (''c2/b.txt'', ''y'')]"
    by (simp_all add: paginate_def startswith_def)
  have f: "length (paginate ?b (''c1'' @ ''/'')) \<le> 1000" "length (paginate ?b (''c2'' @ ''/'')) \<le> 1000"
    "mset (snapshot_entries (''c1'' @ ''/'') (paginate ?b (''c1'' @ ''/'')))
       = mset (snapshot_entries (''c2'' @ ''/'') (paginate ?b (''c2'' @ ''/'')))"
    "distinct (map fst (snapshot_entries (''c1'' @ ''/'') (paginate ?b (''c1'' @ ''/''))))"
    unfolding p1 p2 by (simp_all add: snapshot_entries_def endswith_slash_def)
  note t = directory_sha1_order_insensitive [of "[(''b.txt'', ''2''), (''a.txt'', ''1'')]"
        "[(''a.txt'', ''1''), (''b.txt'', ''2'')]" plain "''c1/''"
        "[(''c1/b.txt'', ''y''), (''c1/d/'', ''''), (''c1/a.txt'', ''x'')]" "''c2/''"
        "[(''c2/a.txt'', ''x''), (''c2/b.txt'', ''y'')]" ?b "''c1''" ?b "''c2''"]
  from t f have g: "fst (fetch_version_hash plain ?b ''c1'') = fst (fetch_version_hash plain ?b ''c2'')"
    by blast
  from t a b have h: "directory_sha1 plain [(''b.txt'', ''2''), (''a.txt'', ''1'')]
                        = directory_sha1 plain [(''a.txt'', ''1''), (''b.txt'', ''2'')]"
    by blast
  from t d e have i: "directory_sha1 plain
        (file_hashes plain ''c1/'' [(''c1/b.txt'', ''y''), (''c1/d/'', ''''), (''c1/a.txt'', ''x'')])
       = directory_sha1 plain
           (file_hashes plain ''c2/'' [(''c2/a.txt'', ''x''), (''c2/b.txt'', ''y'')])"
    by blast
  show ?thesis
    using a b c d e f(1) g h i by simp
qed

subsection \<open>The file digest\<close>

text \<open>
  C7. The digest of a file is the digest of \<open>blob\<close>, a space, the decimal length of the
  normalised content, a NUL byte and the normalised content, where normalising replaces
  each CRLF, from left to right, by LF. In the list that \<open>fetch_version_hash\<close> builds,
  each object that is not a folder key has that digest of its body, whatever its key.
\<close>

theorem file_sha1_git_blob:
  "file_sha1 sha1 body
     = sha1 (''blob '' @ str_nat (length (crlf_to_lf body)) @ [CHR 0x00] @ crlf_to_lf body)
   \<and> crlf_to_lf [] = []
   \<and> crlf_to_lf (CHR 0x0D # CHR 0x0A # rest) = CHR 0x0A # crlf_to_lf rest
   \<and> (c \<noteq> CHR 0x0D \<longrightarrow> crlf_to_lf (c # rest) = c # crlf_to_lf rest)
   \<and> (rest = [] \<or> hd rest \<noteq> CHR 0x0A \<longrightarrow> crlf_to_lf (c # rest) = c # crlf_to_lf rest)
   \<and> ((key, body) \<in> set contents \<and> \<not> endswith_slash key
        \<longrightarrow> (drop (length prefix) key, file_sha1 sha1 body) \<in> set (file_hashes sha1 prefix contents))"
proof -
  have a: "crlf_to_lf (c # rest) = c # crlf_to_lf rest" if "c \<noteq> CHR 0x0D"
    using that by (cases rest) auto
  have b: "crlf_to_lf (c # rest) = c # crlf_to_lf rest" if "rest = [] \<or> hd rest \<noteq> CHR 0x0A"
    using that by (cases rest) auto
  show ?thesis
    using a b file_hashes_entry [of key body contents prefix sha1]
    by (simp add: file_sha1_def git_blob_def)
qed

theorem file_sha1_git_blob_witness:
  "file_sha1 plain [CHR ''a'', CHR 0x0D, CHR 0x0A, CHR ''b'']
     = [CHR ''b'', CHR ''l'', CHR ''o'', CHR ''b'', CHR '' '', CHR ''3'', CHR 0x00,
        CHR ''a'', CHR 0x0A, CHR ''b'']
   \<and> CHR ''a'' \<noteq> CHR 0x0D \<and> hd [CHR ''b''] \<noteq> CHR 0x0A
   \<and> crlf_to_lf [CHR ''a'', CHR ''b''] = CHR ''a'' # crlf_to_lf [CHR ''b'']
   \<and> (''c7/n.txt'', [CHR ''a'', CHR 0x0D, CHR 0x0A, CHR ''b''])
        \<in> set [(''c7/n.txt'', [CHR ''a'', CHR 0x0D, CHR 0x0A, CHR ''b''])]
   \<and> \<not> endswith_slash ''c7/n.txt''
   \<and> (''n.txt'', file_sha1 plain [CHR ''a'', CHR 0x0D, CHR 0x0A, CHR ''b''])
        \<in> set (file_hashes plain ''c7/''
                 [(''c7/n.txt'', [CHR ''a'', CHR 0x0D, CHR 0x0A, CHR ''b''])])"
proof -
  have e: "\<not> endswith_slash ''c7/n.txt''" by (simp add: endswith_slash_def)
  have n: "str_nat (length [CHR ''a'', CHR 0x0A, CHR ''b'']) = ''3''"
    by (simp add: str_nat.simps)
  have l: "crlf_to_lf [CHR ''a'', CHR 0x0D, CHR 0x0A, CHR ''b''] = [CHR ''a'', CHR 0x0A, CHR ''b'']"
    by simp
  note t = file_sha1_git_blob [of plain "[CHR ''a'', CHR 0x0D, CHR 0x0A, CHR ''b'']" "[CHR ''b'']"
      "CHR ''a''" "''c7/n.txt''" "[(''c7/n.txt'', [CHR ''a'', CHR 0x0D, CHR 0x0A, CHR ''b''])]" "''c7/''"]
  from t have f1: "file_sha1 plain [CHR ''a'', CHR 0x0D, CHR 0x0A, CHR ''b'']
     = [CHR ''b'', CHR ''l'', CHR ''o'', CHR ''b'', CHR '' '', CHR ''3'', CHR 0x00,
        CHR ''a'', CHR 0x0A, CHR ''b'']"
    unfolding l n by (simp add: plain_def)
  have m: "(''c7/n.txt'', [CHR ''a'', CHR 0x0D, CHR 0x0A, CHR ''b''])
        \<in> set [(''c7/n.txt'', [CHR ''a'', CHR 0x0D, CHR 0x0A, CHR ''b''])]"
    by simp
  from t e m have "(drop (length ''c7/'') ''c7/n.txt'',
                     file_sha1 plain [CHR ''a'', CHR 0x0D, CHR 0x0A, CHR ''b''])
        \<in> set (file_hashes plain ''c7/''
                 [(''c7/n.txt'', [CHR ''a'', CHR 0x0D, CHR 0x0A, CHR ''b''])])"
    by blast
  then have f2: "(''n.txt'', file_sha1 plain [CHR ''a'', CHR 0x0D, CHR 0x0A, CHR ''b''])
        \<in> set (file_hashes plain ''c7/''
                 [(''c7/n.txt'', [CHR ''a'', CHR 0x0D, CHR 0x0A, CHR ''b''])])"
    by simp
  from t have f3: "crlf_to_lf [CHR ''a'', CHR ''b''] = CHR ''a'' # crlf_to_lf [CHR ''b'']"
    by simp
  show ?thesis
    by (intro conjI f1 f2 f3 e) simp_all
qed

subsection \<open>The id of a merge commit\<close>

text \<open>
  C8. When the local pointer is a non-empty id whose last character is a decimal digit,
  \<open>merge_commit\<close> returns that id with the digit replaced by the decimal numeral of the
  digit plus one, a commit with the new id, the message and the timestamp is in the
  graph, and the new id is the local pointer.
\<close>

theorem merge_commit_next_id:
  assumes "config_file st = Some p" and "p \<noteq> []" and "int_of_digit (last p) = Some n"
  shows "\<exists>st'. merge_commit commit1 commit2 user_id message timestamp st
                 = (Inr (butlast p @ str_nat (n + 1)), st')
           \<and> ''0123456789'' ! n = last p
           \<and> config_file st' = Some (butlast p @ str_nat (n + 1))
           \<and> (\<exists>c. node_at (db st') c
                      = Some (Commit (butlast p @ str_nat (n + 1)) (Some message) (Some timestamp)))"
proof -
  let ?mid = "butlast p @ str_nat (n + 1)"
  let ?v = "Commit ?mid (Some message) (Some timestamp)"
  obtain cs g1 where m: "merge_node ?v (db st) = (cs, g1)"
    by (cases "merge_node ?v (db st)")
  from merge_node_rows [OF m] obtain c where c: "node_at g1 c = Some ?v"
    by (cases cs) auto
  show ?thesis
    using assms m c int_of_digit_Some [OF assms(3)]
    by (auto simp: merge_commit_def Let_def intro!: exI [of _ c])
qed

theorem merge_commit_next_id_witness:
  "config_file st_ahead = Some ''c2'' \<and> ''c2'' \<noteq> [] \<and> int_of_digit (last ''c2'') = Some 2
   \<and> (\<exists>st'. merge_commit ''c2'' ''c1'' ''ann'' ''merge'' ''t3'' st_ahead = (Inr ''c3'', st')
          \<and> config_file st' = Some ''c3''
          \<and> (\<exists>c. node_at (db st') c = Some (Commit ''c3'' (Some ''merge'') (Some ''t3''))))"
proof -
  have p: "config_file st_ahead = Some ''c2''" by (simp add: st_ahead_eq)
  have d: "int_of_digit (last ''c2'') = Some 2" by (simp add: int_of_digit_def)
  have s: "butlast ''c2'' @ str_nat (2 + 1) = ''c3''" by (simp add: str_nat.simps)
  show ?thesis
    using p d merge_commit_next_id [OF p _ d, of "''c2''" "''c1''" "''ann''" "''merge''" "''t3''"]
    unfolding s by auto
qed

subsection \<open>Switching branches\<close>

text \<open>
  C9. \<open>switch_branch\<close>: when the head of the branch resolves to a commit, the active
  branch becomes the branch and the local pointer becomes that commit's id; when it does
  not, the call reports that the branch does not exist and leaves the state as it was.
  A branch with no HEAD node does not resolve.
\<close>

theorem switch_branch_outcome:
  "(head_commit (db st) name = Some c \<longrightarrow>
      switch_branch name st =
        (Switched_to name, st\<lparr>current_branch := name, config_file := Some c\<rparr>))
   \<and> (head_commit (db st) name = None \<longrightarrow> switch_branch name st = (Does_not_exist name, st))
   \<and> (match_nodes (db st) (\<lambda>v. v = HEAD name) = [] \<longrightarrow> head_commit (db st) name = None)"
  by (simp add: switch_branch_def head_commit_def head_rows_no_head single_def)

theorem switch_branch_outcome_witness:
  "head_commit (db st_ahead) ''master'' = Some ''c1''
   \<and> config_file st_ahead = Some ''c2'' \<and> current_branch st_ahead = ''dev''
   \<and> switch_branch ''master'' st_ahead =
       (Switched_to ''master'', st_ahead\<lparr>current_branch := ''master'', config_file := Some ''c1''\<rparr>)
   \<and> match_nodes (db st_ahead) (\<lambda>v. v = HEAD ''feature'') = []
   \<and> head_commit (db st_ahead) ''feature'' = None
   \<and> switch_branch ''feature'' st_ahead = (Does_not_exist ''feature'', st_ahead)"
proof -
  have h: "head_commit (db st_ahead) ''master'' = Some ''c1''"
    by (simp add: st_ahead_eq graph_defs)
  have n: "match_nodes (db st_ahead) (\<lambda>v. v = HEAD ''feature'') = []"
    by (simp add: st_ahead_eq graph_defs)
  have p: "config_file st_ahead = Some ''c2'' \<and> current_branch st_ahead = ''dev''"
    by (simp add: st_ahead_eq)
  show ?thesis
    using h n p switch_branch_outcome [of st_ahead "''master''" "''c1''"]
      switch_branch_outcome [of st_ahead "''feature''" c]
    by simp
qed

subsection \<open>A commit on a branch without a head\<close>

text \<open>
  C10. \<open>create_commit\<close> on a branch other than \<open>master\<close> that has no HEAD node: the parent
  lookup gives no commit; the commit node is created and gets its \<open>MADE_BY\<close>
  relationships and nothing else, so no \<open>PARENT\<close> and no \<open>POINTS_TO\<close> relationship is
  created and the branch still has no head; the local pointer becomes the new id; and
  the files are uploaded under the new id.
\<close>

theorem create_commit_headless_branch:
  assumes "commit_branch \<noteq> ''master''"
    and "match_nodes (db st) (\<lambda>v. v = HEAD commit_branch) = []"
  shows "head_commit (db st) commit_branch = None
    \<and> node_at (db (create_commit commit_id message user_id files timestamp commit_branch st))
         (length (nodes (db st))) = Some (Commit commit_id (Some message) (Some timestamp))
    \<and> (\<exists>us. us \<noteq> []
          \<and> edges (db (create_commit commit_id message user_id files timestamp commit_branch st))
             = edges (db st) @ map (\<lambda>u. (length (nodes (db st)), MADE_BY, u)) us)
    \<and> head_commit (db (create_commit commit_id message user_id files timestamp commit_branch st))
         commit_branch = None
    \<and> config_file (create_commit commit_id message user_id files timestamp commit_branch st)
         = Some commit_id
    \<and> bucket (create_commit commit_id message user_id files timestamp commit_branch st)
         = s3_store (bucket st) files commit_id
    \<and> (\<forall>f \<in> set files. distinct (map (\<lambda>f. object_key commit_id (fst f)) files) \<longrightarrow>
          map_of (bucket (create_commit commit_id message user_id files timestamp commit_branch st))
            (object_key commit_id (fst f)) = Some (snd f))"
proof -
  let ?c = "Commit commit_id (Some message) (Some timestamp)"
  let ?g1 = "create_node ?c (db st)"
  obtain us g2 where m: "merge_node (User user_id) ?g1 = (us, g2)"
    by (cases "merge_node (User user_id) ?g1")
  let ?g3 = "create_edges (map (\<lambda>u. (length (nodes (db st)), MADE_BY, u)) us) g2"
  have parent: "head_commit (db st) commit_branch = None"
    by (simp add: head_commit_def head_rows_no_head [OF assms(2)] single_def)
  have "match_nodes ?g1 (\<lambda>v. v = HEAD commit_branch) = []"
    using assms(2) by (simp add: match_nodes_create_node)
  then have "match_nodes g2 (\<lambda>v. v = HEAD commit_branch) = []"
    using merge_node_match_other [OF m, of "\<lambda>v. v = HEAD commit_branch"] by simp
  then have nohead: "match_nodes ?g3 (\<lambda>v. v = HEAD commit_branch) = []"
    by simp
  have final: "db (create_commit commit_id message user_id files timestamp commit_branch st) = ?g3"
    using assms(1) parent m
    by (simp add: create_commit_def Let_def link_parent_def update_head_no_head_node [OF nohead])
  have node: "node_at ?g3 (length (nodes (db st))) = Some ?c"
    using merge_node_old_nodes [OF m, of "length (nodes (db st))" ?c]
    by (simp add: node_at_create_node)
  have es: "edges ?g3 = edges (db st) @ map (\<lambda>u. (length (nodes (db st)), MADE_BY, u)) us"
    using merge_node_edges [OF m] by (simp add: create_edges_def create_node_def)
  have us: "us \<noteq> []" using merge_node_rows [OF m] by simp
  have still: "head_commit ?g3 commit_branch = None"
    by (simp add: head_commit_def head_rows_no_head [OF nohead] single_def)
  have cfg: "config_file (create_commit commit_id message user_id files timestamp commit_branch st)
               = Some commit_id"
    by (simp add: create_commit_def Let_def case_prod_beta)
  have bk: "bucket (create_commit commit_id message user_id files timestamp commit_branch st)
              = s3_store (bucket st) files commit_id"
    by (simp add: create_commit_def Let_def case_prod_beta)
  have up: "\<forall>f \<in> set files. distinct (map (\<lambda>f. object_key commit_id (fst f)) files) \<longrightarrow>
          map_of (s3_store (bucket st) files commit_id) (object_key commit_id (fst f)) = Some (snd f)"
    using s3_store_uploaded [of _ _ files commit_id "bucket st"] by auto
  show ?thesis
    unfolding final bk using parent node es us still cfg up by blast
qed

theorem create_commit_headless_branch_witness:
  "''feature'' \<noteq> ''master''
   \<and> match_nodes (db st_init) (\<lambda>v. v = HEAD ''feature'') = []
   \<and> head_commit (db st_init) ''feature'' = None
   \<and> node_at (db (create_commit ''c1'' ''first'' ''ann'' [(''a.txt'', ''x'')] ''t1'' ''feature'' st_init)) 3
        = Some (Commit ''c1'' (Some ''first'') (Some ''t1''))
   \<and> head_commit (db (create_commit ''c1'' ''first'' ''ann'' [(''a.txt'', ''x'')] ''t1'' ''feature'' st_init))
        ''feature'' = None
   \<and> config_file (create_commit ''c1'' ''first'' ''ann'' [(''a.txt'', ''x'')] ''t1'' ''feature'' st_init)
        = Some ''c1''
   \<and> distinct (map (\<lambda>f. object_key ''c1'' (fst f)) [(''a.txt'', ''x'')])
   \<and> map_of (bucket (create_commit ''c1'' ''first'' ''ann'' [(''a.txt'', ''x'')] ''t1'' ''feature'' st_init))
        ''c1/a.txt'' = Some ''x''"
proof -
  have b: "''feature'' \<noteq> ''master''" by simp
  have h: "match_nodes (db st_init) (\<lambda>v. v = HEAD ''feature'') = []"
    by (simp add: st_init_eq match_nodes_def)
  have n: "length (nodes (db st_init)) = 3" by (simp add: st_init_eq)
  have k: "object_key ''c1'' ''a.txt'' = ''c1/a.txt''" by (simp add: store_defs)
  note t = create_commit_headless_branch [OF b h, of "''c1''" "''first''" "''ann''"
      "[(''a.txt'', ''x'')]" "''t1''"]
  show ?thesis
    using b h t unfolding n by (auto simp: k)
qed

end
